theory Spec2Isabelle
  imports Complex_Main "HOL-Library.List_Lexorder" "HOL-Library.Log_Nat"
begin

section \<open>Python text\<close>

text \<open>
  A Python \<open>str\<close> is a sequence of Unicode code points, so text is a list of
  naturals; \<open>py\<close> writes an ASCII literal. Lists of naturals are ordered
  lexicographically, which is how Python compares and sorts \<open>str\<close> values.
\<close>

type_synonym pystr = "nat list"

definition py :: "string \<Rightarrow> pystr" where
  "py s = map of_char s"

section \<open>Numbers, cells and errors\<close>

text \<open>
  A number of the program is an integer (a Python int, an int64) or a float (a float64).
  Both are written \<open>Fin r\<close> with their value \<open>r\<close>; an integer has a whole value, and
  the value of a float is a double. What an operation does to a number is written where
  the operation is: a sum in int64 wraps, a result in float64 is rounded to a double. The
  sign of zero is outside the model. \<open>NaN\<close> is also the missing value of pandas
  (\<open>pd.isna\<close>).
\<close>

datatype pyfloat = Fin real | Inf bool | NaN

text \<open>A cell of a DataFrame, or any scalar the program handles: a number or text.\<close>

datatype pyval = Flt pyfloat | Str pystr

abbreviation Num :: "real \<Rightarrow> pyval" where
  "Num r \<equiv> Flt (Fin r)"

abbreviation Missing :: pyval where
  "Missing \<equiv> Flt NaN"

datatype failure =
    ColumnMissing pystr | CoerceFailed pystr | WrongDtype pystr
  | NotNullable pystr | CheckFailed pystr

datatype error =
    IndexError | KeyError | TypeError | ValueError | OverflowError
  | FileError | EmptyDataError | SchemaErrors "failure list"

text \<open>
  The Unicode character database, the parsers and printers of numbers and the rounding of
  float64 belong to the interpreter and its libraries, not to the repository. What the
  code reads from them is a parameter: the compatibility decomposition of a code point
  outside ASCII, \<open>str.lower\<close> on text that is not pure ASCII, \<open>isalpha\<close> and
  \<open>isspace\<close> of a code point outside ASCII, \<open>str()\<close> of a number, and the parsers
  of a number written as text (\<open>pd.to_numeric\<close>, \<open>float\<close> and the cast to int64).
  On ASCII the functions are written out below. For float64 the parameters are the double
  nearest to a real that is not plainly a double (\<open>double_of\<close>, the result of one
  operation), the sum pandas gives a group and the sum it gives a column of floats when
  the real sum is not plainly exact (\<open>groupby_sum_u\<close>, \<open>series_sum_u\<close>), and
  Python's \<open>+\<close> on two numbers of an object column beyond the range where an integer
  and a float add alike (\<open>py_add_u\<close>).
\<close>

record pylib =
  nfkd :: "nat \<Rightarrow> pystr"
  lower_u :: "pystr \<Rightarrow> pystr"
  isalpha_u :: "nat \<Rightarrow> bool"
  isspace_u :: "nat \<Rightarrow> bool"
  str_of_num :: "pyfloat \<Rightarrow> pystr"
  to_numeric_str :: "pystr \<Rightarrow> pyfloat option"
  float_of_str :: "pystr \<Rightarrow> pyfloat option"
  int_of_str :: "pystr \<Rightarrow> int option"
  double_of :: "real \<Rightarrow> pyfloat"
  groupby_sum_u :: "pyfloat list \<Rightarrow> pyfloat"
  series_sum_u :: "pyfloat list \<Rightarrow> pyfloat"
  py_add_u :: "real \<Rightarrow> real \<Rightarrow> pyfloat"

text \<open>A whole number.\<close>

definition whole :: "real \<Rightarrow> bool" where
  "whole r = (of_int \<lfloor>r\<rfloor> = r)"

text \<open>int64 arithmetic: a result outside \<open>-2^63 .. 2^63 - 1\<close> wraps around.\<close>

definition wrap64 :: "int \<Rightarrow> int" where
  "wrap64 n = (n + 2 ^ 63) mod 2 ^ 64 - 2 ^ 63"

text \<open>
  The double nearest to an integer that is not negative: an integer of at most 53 bits is
  a double; a longer one keeps its leading 53 bits, rounded to the nearest, and to the
  even one of two that are equally near.
\<close>

definition round_53 :: "int \<Rightarrow> int" where
  "round_53 n =
     (if bitlen n \<le> 53 then n
      else (let s = nat (bitlen n - 53); q = n div 2 ^ s; r = n mod 2 ^ s
            in if 2 ^ (s - 1) < r \<or> (r = 2 ^ (s - 1) \<and> odd q) then (q + 1) * 2 ^ s
               else q * 2 ^ s))"

definition float_of_int :: "int \<Rightarrow> real" where
  "float_of_int n = (if 0 \<le> n then of_int (round_53 n) else - of_int (round_53 (- n)))"

text \<open>
  The conversion of a finite number to float64: a number that is not whole is a float and
  stays; a whole number is an integer, which is rounded to the nearest double, or a float
  with a whole value, which that rounding leaves as it is.
\<close>

definition float_of_num :: "real \<Rightarrow> real" where
  "float_of_num r = (if whole r then float_of_int \<lfloor>r\<rfloor> else r)"

text \<open>The result of one float64 operation whose exact result is \<open>r\<close>: a whole number
  of magnitude up to \<open>2^53\<close> is a double, so there the result is exact.\<close>

definition rnd :: "pylib \<Rightarrow> real \<Rightarrow> pyfloat" where
  "rnd L r = (if whole r \<and> \<bar>r\<bar> \<le> 2 ^ 53 then Fin r else double_of L r)"

text \<open>
  A sum of floats by a library routine \<open>u\<close>. When every value is whole and the
  magnitudes add up to at most \<open>2^53\<close>, every partial sum in any order is a double and
  no step rounds, so the result is the real sum; otherwise it is what the routine gives.
\<close>

definition float_sum :: "(pyfloat list \<Rightarrow> pyfloat) \<Rightarrow> pyfloat list \<Rightarrow> pyfloat" where
  "float_sum u xs =
     (if list_all (\<lambda>x. case x of Fin r \<Rightarrow> whole r | _ \<Rightarrow> False) xs \<and>
         sum_list (map (\<lambda>x. case x of Fin r \<Rightarrow> \<bar>r\<bar> | _ \<Rightarrow> 0) xs) \<le> 2 ^ 53
      then Fin (sum_list (map (\<lambda>x. case x of Fin r \<Rightarrow> r | _ \<Rightarrow> 0) xs))
      else u xs)"

text \<open>The integers of a column of dtype int64, and the floats of a column of dtype
  float64.\<close>

definition int_cells :: "pyval list \<Rightarrow> int list" where
  "int_cells vs = map (\<lambda>v. case v of Flt (Fin r) \<Rightarrow> \<lfloor>r\<rfloor> | _ \<Rightarrow> 0) vs"

definition float_cells :: "pyval list \<Rightarrow> pyfloat list" where
  "float_cells vs = concat (map (\<lambda>v. case v of Flt x \<Rightarrow> [x] | Str s \<Rightarrow> []) vs)"

definition is_ascii :: "nat \<Rightarrow> bool" where
  "is_ascii c = (c < 128)"

text \<open>ASCII white space for \<open>str.isspace\<close>: TAB, LF, VT, FF, CR, FS, GS, RS, US, SPACE.\<close>

definition ascii_space :: "nat \<Rightarrow> bool" where
  "ascii_space c = ((9 \<le> c \<and> c \<le> 13) \<or> (28 \<le> c \<and> c \<le> 32))"

definition ascii_alpha :: "nat \<Rightarrow> bool" where
  "ascii_alpha c = ((65 \<le> c \<and> c \<le> 90) \<or> (97 \<le> c \<and> c \<le> 122))"

definition ascii_lower :: "nat \<Rightarrow> nat" where
  "ascii_lower c = (if 65 \<le> c \<and> c \<le> 90 then c + 32 else c)"

definition isspace :: "pylib \<Rightarrow> nat \<Rightarrow> bool" where
  "isspace L c = (if is_ascii c then ascii_space c else isspace_u L c)"

definition isalpha :: "pylib \<Rightarrow> nat \<Rightarrow> bool" where
  "isalpha L c = (if is_ascii c then ascii_alpha c else isalpha_u L c)"

definition str_lower :: "pylib \<Rightarrow> pystr \<Rightarrow> pystr" where
  "str_lower L s = (if list_all is_ascii s then map ascii_lower s else lower_u L s)"

text \<open>\<open>s.strip()\<close>: white space removed at both ends.\<close>

definition str_strip :: "pylib \<Rightarrow> pystr \<Rightarrow> pystr" where
  "str_strip L s = rev (dropWhile (isspace L) (rev (dropWhile (isspace L) s)))"

text \<open>\<open>s.replace("&", "and")\<close>: the pattern is one character, so every occurrence
  is rewritten on its own.\<close>

definition replace_amp :: "pystr \<Rightarrow> pystr" where
  "replace_amp s = concat (map (\<lambda>c. if c = 38 then py ''and'' else [c]) s)"

text \<open>\<open>s.split()\<close>: the maximal runs of characters that are not white space;
  \<open>cur\<close> is the run being read.\<close>

fun split_from :: "pylib \<Rightarrow> pystr \<Rightarrow> pystr \<Rightarrow> pystr list" where
  "split_from L cur [] = (if cur = [] then [] else [cur])"
| "split_from L cur (c # cs) =
     (if isspace L c then (if cur = [] then split_from L [] cs else cur # split_from L [] cs)
      else split_from L (cur @ [c]) cs)"

definition str_split :: "pylib \<Rightarrow> pystr \<Rightarrow> pystr list" where
  "str_split L s = split_from L [] s"

text \<open>\<open>" ".join(ts)\<close>.\<close>

fun join_space :: "pystr list \<Rightarrow> pystr" where
  "join_space [] = []"
| "join_space [t] = t"
| "join_space (t # u # ts) = t @ 32 # join_space (u # ts)"

text \<open>
  \<open>unicodedata.normalize("NFKD", s).encode("ascii", "ignore").decode("utf-8")\<close>:
  an ASCII character has no decomposition and stays; any other code point is replaced by
  its full compatibility decomposition, of which only the ASCII characters survive the
  encoding. The canonical reordering of NFKD moves combining marks only, none of which
  is ASCII, so it does not show in the result.
\<close>

definition ascii_fold :: "pylib \<Rightarrow> pystr \<Rightarrow> pystr" where
  "ascii_fold L s =
     concat (map (\<lambda>c. if is_ascii c then [c] else filter is_ascii (nfkd L c)) s)"

section \<open>Helper utilities of the dashboard\<close>

text \<open>\<open>normalize_text(s)\<close>; \<open>None\<close> is a missing value (\<open>pd.isna(s)\<close>), \<open>Some s\<close> a
  \<open>str\<close>, on which \<open>str(s)\<close> is \<open>s\<close>.\<close>

fun normalize_text :: "pylib \<Rightarrow> pystr option \<Rightarrow> pystr" where
  "normalize_text L None = []"
| "normalize_text L (Some s) =
     str_lower L (join_space (str_split L (replace_amp (str_strip L (ascii_fold L s)))))"


text \<open>The dict literal \<open>COMMON_NAME_MAP\<close>, in the order it is written; its keys are
  distinct.\<close>

definition COMMON_NAME_MAP :: "(pystr \<times> pystr) list" where
  "COMMON_NAME_MAP =
    [(py ''odisha'', py ''orissa''),
     (py ''uttarakhand'', py ''uttaranchal''),
     (py ''pondicherry'', py ''puducherry''),
     (py ''puducherry'', py ''puducherry''),
     (py ''nct of delhi'', py ''delhi''),
     (py ''delhi (nct)'', py ''delhi''),
     (py ''andaman & nicobar islands'', py ''andaman and nicobar''),
     (py ''andaman and nicobar islands'', py ''andaman and nicobar''),
     (py ''dadra & nagar haveli and daman & diu'', py ''dadra and nagar haveli and daman and diu''),
     (py ''dadra and nagar haveli and daman and diu'', py ''dadra and nagar haveli and daman and diu'')]"

text \<open>\<open>apply_common_map(name)\<close>: \<open>COMMON_NAME_MAP.get(n, n)\<close>.\<close>

definition apply_common_map :: "pylib \<Rightarrow> pystr option \<Rightarrow> pystr" where
  "apply_common_map L name =
     (let n = normalize_text L name
      in case map_of COMMON_NAME_MAP n of Some v \<Rightarrow> v | None \<Rightarrow> n)"

subsection \<open>GeoJSON properties\<close>

text \<open>
  A value of a parsed JSON document. \<open>JRepr t\<close> is an array or an object, of which the
  program only takes \<open>str()\<close>, the text \<open>t\<close>. A \<open>dict\<close> keeps the order of
  insertion, so the properties of a feature are an association list.
\<close>

datatype json = JNull | JBool bool | JNum pyfloat | JStr pystr | JRepr pystr

type_synonym props = "(pystr \<times> json) list"

fun py_str :: "pylib \<Rightarrow> json \<Rightarrow> pystr" where
  "py_str L JNull = py ''None''"
| "py_str L (JBool b) = (if b then py ''True'' else py ''False'')"
| "py_str L (JNum x) = str_of_num L x"
| "py_str L (JStr s) = s"
| "py_str L (JRepr t) = t"

text \<open>The test of the second loop of \<open>detect_state_key_from_props\<close> on \<open>sval\<close>;
  \<open>&\<close> is 38 and \<open>-\<close> is 45.\<close>

definition plausible_name :: "pylib \<Rightarrow> pystr \<Rightarrow> bool" where
  "plausible_name L sval =
     (2 < length sval \<and> length sval < 40 \<and>
      list_all (\<lambda>ch. isalpha L ch \<or> isspace L ch \<or> ch = 38 \<or> ch = 45) sval)"

text \<open>The first loop: the candidates in their order; for a candidate that is among the
  lower-cased keys, the keys in their order.\<close>

fun scan_candidates :: "pylib \<Rightarrow> props \<Rightarrow> pystr list \<Rightarrow> pystr option" where
  "scan_candidates L props [] = None"
| "scan_candidates L props (cand # cands) =
     (if cand \<in> set (map (\<lambda>k. str_lower L k) (map fst props))
      then (case find (\<lambda>k. str_lower L k = cand) (map fst props) of
              Some k \<Rightarrow> Some k
            | None \<Rightarrow> scan_candidates L props cands)
      else scan_candidates L props cands)"

definition state_key_candidates :: "pystr list" where
  "state_key_candidates =
     [py ''name_1'', py ''name'', py ''st_nm'', py ''st_name'', py ''state'', py ''state_name'']"

text \<open>\<open>detect_state_key_from_props(props)\<close>; \<open>list(props.keys())[0]\<close> raises
  \<open>IndexError\<close> on an empty list.\<close>

definition detect_state_key_from_props :: "pylib \<Rightarrow> props \<Rightarrow> error + pystr" where
  "detect_state_key_from_props L props =
     (case scan_candidates L props state_key_candidates of
        Some k \<Rightarrow> Inr k
      | None \<Rightarrow>
         (case find (\<lambda>(k, v). plausible_name L (py_str L v)) props of
            Some (k, v) \<Rightarrow> Inr k
          | None \<Rightarrow>
             (case map fst props of [] \<Rightarrow> Inl IndexError | k # ks \<Rightarrow> Inr k)))"


subsection \<open>The uploaded table\<close>

text \<open>
  A DataFrame is its columns in order; a column has a header, the dtype pandas gave it and
  its cells. \<open>read_csv\<close> gives a column of numbers the dtype int64 or float64 and a
  column with text the dtype object, and makes the headers distinct.
\<close>

datatype dtype = Int64 | Float64 | Object

record column =
  col_name :: pystr
  col_dtype :: dtype
  col_cells :: "pyval list"

type_synonym frame = "column list"

definition columns :: "frame \<Rightarrow> pystr list" where
  "columns df = map col_name df"

definition frame_get :: "frame \<Rightarrow> pystr \<Rightarrow> column option" where
  "frame_get df k = find (\<lambda>c. col_name c = k) df"

text \<open>\<open>df[k] = c\<close>: the column of that header is replaced where it stands, a new
  header is added at the end.\<close>

fun frame_set :: "frame \<Rightarrow> column \<Rightarrow> frame" where
  "frame_set [] c = [c]"
| "frame_set (d # df) c = (if col_name d = col_name c then c # df else d # frame_set df c)"

text \<open>\<open>pat in s\<close> on text.\<close>

fun str_contains :: "pystr \<Rightarrow> pystr \<Rightarrow> bool" where
  "str_contains pat [] = (pat = [])"
| "str_contains pat (c # cs) = (take (length pat) (c # cs) = pat \<or> str_contains pat cs)"

definition state_header :: "pylib \<Rightarrow> pystr \<Rightarrow> bool" where
  "state_header L c =
     (str_contains (py ''state'') (str_lower L c) \<or> str_contains (py ''ut'') (str_lower L c))"

definition state_candidates :: "pylib \<Rightarrow> frame \<Rightarrow> pystr list" where
  "state_candidates L df = filter (state_header L) (columns df)"

definition object_cols :: "frame \<Rightarrow> pystr list" where
  "object_cols df = map col_name (filter (\<lambda>c. col_dtype c = Object) df)"

text \<open>Lines 129 to 139: \<open>None\<close> is the branch that reports the error and stops.\<close>

definition state_col :: "pylib \<Rightarrow> frame \<Rightarrow> pystr option" where
  "state_col L df =
     (case state_candidates L df of
        c # cs \<Rightarrow> Some c
      | [] \<Rightarrow> (case object_cols df of c # cs \<Rightarrow> Some c | [] \<Rightarrow> None))"

definition isna :: "pyval \<Rightarrow> bool" where
  "isna v = (v = Missing)"

definition dropna :: "pyval list \<Rightarrow> pyval list" where
  "dropna vs = filter (\<lambda>v. \<not> isna v) vs"

text \<open>Whether \<open>pd.to_numeric\<close> returns on these values instead of raising.\<close>

definition to_numeric_ok :: "pylib \<Rightarrow> pyval list \<Rightarrow> bool" where
  "to_numeric_ok L vs =
     list_all (\<lambda>v. case v of Flt x \<Rightarrow> True | Str s \<Rightarrow> to_numeric_str L s \<noteq> None) vs"

text \<open>Lines 143 to 150: the columns of a number dtype, then, in the order of the
  columns, every other column whose first 20 present values convert.\<close>

definition numeric_cols :: "pylib \<Rightarrow> frame \<Rightarrow> pystr list" where
  "numeric_cols L df =
     fold (\<lambda>c acc.
             if col_name c \<in> set acc then acc
             else if to_numeric_ok L (take 20 (dropna (col_cells c))) then acc @ [col_name c]
             else acc)
          df (map col_name (filter (\<lambda>c. col_dtype c \<noteq> Object) df))"

text \<open>The messages of \<open>st.error\<close>; \<open>st.stop()\<close> ends the run of the script.\<close>

datatype message = ReadFailed | NoStateColumn | NoMetricColumn

text \<open>Lines 129 to 153: the messages shown, and, when the script goes on, the state
  column and the columns offered for the metric.\<close>

definition detect_columns :: "pylib \<Rightarrow> frame \<Rightarrow> message list \<times> (pystr \<times> pystr list) option" where
  "detect_columns L df =
     (case state_col L df of
        None \<Rightarrow> ([NoStateColumn], None)
      | Some sc \<Rightarrow>
         (if numeric_cols L df = [] then ([NoMetricColumn], None)
          else ([], Some (sc, numeric_cols L df))))"

text \<open>
  Lines 121 to 125: \<open>pd.read_csv(uploaded)\<close>, where \<open>t\<close> is the table written in the
  uploaded file. A file with no column has nothing to parse: pandas raises
  \<open>EmptyDataError\<close> and returns no table.
\<close>

definition read_upload :: "frame \<Rightarrow> error + frame" where
  "read_upload t = (if t = [] then Inl EmptyDataError else Inr t)"

text \<open>Lines 121 to 153: an upload that cannot be read is reported and the script stops;
  a table that is read goes to the detection of its columns.\<close>

definition run_upload :: "pylib \<Rightarrow> frame \<Rightarrow> message list \<times> (pystr \<times> pystr list) option" where
  "run_upload L t =
     (case read_upload t of
        Inl e \<Rightarrow> ([ReadFailed], None)
      | Inr df_raw \<Rightarrow> detect_columns L df_raw)"

subsection \<open>Aggregation\<close>

text \<open>
  Python's \<open>+\<close> on two numbers of a column of dtype object, whose cells are Python
  objects. When both are whole and their magnitudes add up to at most \<open>2^53\<close>, two
  integers, two floats and an integer with a float all give the real sum; beyond that an
  integer sum stays exact and a float sum is rounded, and the parameter says which.
\<close>

fun fadd :: "pylib \<Rightarrow> pyfloat \<Rightarrow> pyfloat \<Rightarrow> pyfloat" where
  "fadd L (Fin a) (Fin b) =
     (if whole a \<and> whole b \<and> \<bar>a\<bar> + \<bar>b\<bar> \<le> 2 ^ 53 then Fin (a + b) else py_add_u L a b)"
| "fadd L (Fin a) (Inf s) = Inf s"
| "fadd L (Inf s) (Fin b) = Inf s"
| "fadd L (Inf s) (Inf t) = (if s = t then Inf s else NaN)"
| "fadd L NaN y = NaN"
| "fadd L x NaN = NaN"

text \<open>Python's \<open>+\<close>: numbers add, text concatenates, a number and text raise.\<close>

fun py_add :: "pylib \<Rightarrow> pyval \<Rightarrow> pyval \<Rightarrow> error + pyval" where
  "py_add L (Flt a) (Flt b) = Inr (Flt (fadd L a b))"
| "py_add L (Str a) (Str b) = Inr (Str (a @ b))"
| "py_add L (Flt a) (Str b) = Inl TypeError"
| "py_add L (Str a) (Flt b) = Inl TypeError"

fun sum_from :: "pylib \<Rightarrow> pyval \<Rightarrow> pyval list \<Rightarrow> error + pyval" where
  "sum_from L acc [] = Inr acc"
| "sum_from L acc (v # vs) =
     (case py_add L acc v of Inl e \<Rightarrow> Inl e | Inr acc' \<Rightarrow> sum_from L acc' vs)"

text \<open>
  The sum of one group, by the dtype of the metric column. A column of dtype int64 holds
  integers and is summed in int64. A column of dtype float64 holds floats, of which the
  missing ones are skipped. The cells of a column of dtype object are added with
  \<open>+\<close> from the first one, the missing ones skipped; a group with no value sums to 0.
\<close>

definition group_sum :: "pylib \<Rightarrow> dtype \<Rightarrow> pyval list \<Rightarrow> error + pyval" where
  "group_sum L dt vs =
     (case dt of
        Int64 \<Rightarrow> Inr (Num (of_int (wrap64 (sum_list (int_cells vs)))))
      | Float64 \<Rightarrow> Inr (Flt (float_sum (groupby_sum_u L) (float_cells (dropna vs))))
      | Object \<Rightarrow> (case dropna vs of [] \<Rightarrow> Inr (Num 0) | v # rest \<Rightarrow> sum_from L v rest))"

fun sum_groups ::
  "pylib \<Rightarrow> dtype \<Rightarrow> (pystr \<times> pyval) list \<Rightarrow> pystr list \<Rightarrow> error + (pystr \<times> pyval) list" where
  "sum_groups L dt rows [] = Inr []"
| "sum_groups L dt rows (k # ks) =
     (case group_sum L dt (map snd (filter (\<lambda>r. fst r = k) rows)) of
        Inl e \<Rightarrow> Inl e
      | Inr v \<Rightarrow>
         (case sum_groups L dt rows ks of
            Inl e \<Rightarrow> Inl e
          | Inr rest \<Rightarrow> Inr ((k, v) # rest)))"

text \<open>\<open>astype(str)\<close> of a cell.\<close>

definition astype_str :: "pylib \<Rightarrow> pyval \<Rightarrow> pystr" where
  "astype_str L v = (case v of Str s \<Rightarrow> s | Flt x \<Rightarrow> str_of_num L x)"

text \<open>Lines 161 and 162, on one cell of the state column.\<close>

definition state_norm_of :: "pylib \<Rightarrow> pyval \<Rightarrow> pystr" where
  "state_norm_of L v = apply_common_map L (Some (str_strip L (astype_str L v)))"

text \<open>Line 164. A record is a row of the table, read at the state column and at the
  metric column; \<open>dt\<close> is the dtype of the metric column. \<open>groupby\<close> sorts the groups
  by their key.\<close>

definition df_agg ::
  "pylib \<Rightarrow> dtype \<Rightarrow> (pyval \<times> pyval) list \<Rightarrow> error + (pystr \<times> pyval) list" where
  "df_agg L dt records =
     (let rows = map (\<lambda>(n, m). (state_norm_of L n, m)) records
      in sum_groups L dt rows (sort (remdups (map fst rows))))"


text \<open>\<open>dict(zip(ks, vs))\<close>: a later pair overwrites an earlier one.\<close>

definition state_to_value :: "(pystr \<times> pyval) list \<Rightarrow> (pystr \<rightharpoonup> pyval)" where
  "state_to_value agg = map_of (rev agg)"

subsection \<open>Reconciliation\<close>

text \<open>
  A feature of the boundary file with the three entries the script adds to its
  properties, \<open>__state_raw\<close>, \<open>__state_norm\<close> and \<open>metric_value\<close>, as fields; the
  last one is absent until line 175 sets it.
\<close>

record feature =
  properties :: props
  state_raw :: pystr
  state_norm :: pystr
  metric_value :: "pyfloat option"

text \<open>Lines 103 to 107.\<close>

definition annotate_names :: "pylib \<Rightarrow> pystr \<Rightarrow> props list \<Rightarrow> feature list" where
  "annotate_names L key feats =
     map (\<lambda>p. let raw_name = str_strip L (py_str L (case map_of p key of Some v \<Rightarrow> v | None \<Rightarrow> JStr []))
              in \<lparr>properties = p, state_raw = raw_name,
                  state_norm = apply_common_map L (Some raw_name), metric_value = None\<rparr>)
         feats"

definition geo_norm_set :: "feature list \<Rightarrow> pystr set" where
  "geo_norm_set feats = state_norm ` set feats"

definition csv_norm_set :: "(pystr \<times> pyval) list \<Rightarrow> pystr set" where
  "csv_norm_set agg = set (map fst agg)"

definition unmatched :: "(pystr \<times> pyval) list \<Rightarrow> feature list \<Rightarrow> pystr list" where
  "unmatched agg feats = sorted_list_of_set (csv_norm_set agg - geo_norm_set feats)"

text \<open>\<open>float(v)\<close>: a finite number is converted to float64, and an integer too large
  for float64 raises; an infinity and NaN stay; text is parsed.\<close>

fun py_float :: "pylib \<Rightarrow> pyval \<Rightarrow> error + pyfloat" where
  "py_float L (Flt (Fin r)) =
     (if \<bar>float_of_num r\<bar> < 2 ^ 1024 then Inr (Fin (float_of_num r)) else Inl OverflowError)"
| "py_float L (Flt (Inf s)) = Inr (Inf s)"
| "py_float L (Flt NaN) = Inr NaN"
| "py_float L (Str s) =
     (case float_of_str L s of Some x \<Rightarrow> Inr x | None \<Rightarrow> Inl ValueError)"

text \<open>Lines 173 to 175.\<close>

fun annotate_metric :: "pylib \<Rightarrow> (pystr \<rightharpoonup> pyval) \<Rightarrow> feature list \<Rightarrow> error + feature list" where
  "annotate_metric L m [] = Inr []"
| "annotate_metric L m (f # fs) =
     (case py_float L (case m (state_norm f) of Some v \<Rightarrow> v | None \<Rightarrow> Num 0) of
        Inl e \<Rightarrow> Inl e
      | Inr x \<Rightarrow>
         (case annotate_metric L m fs of
            Inl e \<Rightarrow> Inl e
          | Inr fs' \<Rightarrow> Inr (f\<lparr>metric_value := Some x\<rparr> # fs')))"

text \<open>Lines 165 to 175: the unmatched report and the annotated features.\<close>

definition reconcile ::
  "pylib \<Rightarrow> (pystr \<times> pyval) list \<Rightarrow> feature list \<Rightarrow> pystr list \<times> (error + feature list)" where
  "reconcile L agg feats = (unmatched agg feats, annotate_metric L (state_to_value agg) feats)"

section \<open>The data preparation module\<close>

subsection \<open>The schema\<close>

datatype sdtype = SObject | SStr | SInt | SFloat

text \<open>\<open>Check.ge(b)\<close>.\<close>

datatype check = Ge real

record colspec =
  spec_dtype :: sdtype
  nullable :: bool
  checks :: "check list"

record schema =
  schema_columns :: "(pystr \<times> colspec) list"
  coerce :: bool

text \<open>\<open>SCHEMA\<close>; \<open>nullable\<close> is False and the list of checks is empty where the
  source does not give them.\<close>

definition SCHEMA :: schema where
  "SCHEMA =
     \<lparr>schema_columns =
        [(py ''Sl. No.'', \<lparr>spec_dtype = SObject, nullable = True, checks = []\<rparr>),
         (py ''State/UT'', \<lparr>spec_dtype = SStr, nullable = False, checks = []\<rparr>),
         (py ''2022'', \<lparr>spec_dtype = SInt, nullable = False, checks = [Ge 0]\<rparr>),
         (py ''percentage'', \<lparr>spec_dtype = SFloat, nullable = True, checks = []\<rparr>)],
      coerce = True\<rparr>"

subsection \<open>Validation by the schema library\<close>

text \<open>
  The cast of one cell to the dtype of its column, \<open>None\<close> where the cast raises. The
  cast to text keeps a missing value missing; the cast to int64 drops the fraction of a
  finite number and raises on NaN and on an infinity.
\<close>

definition trunc :: "real \<Rightarrow> int" where
  "trunc r = (if 0 \<le> r then \<lfloor>r\<rfloor> else \<lceil>r\<rceil>)"

fun coerce_cell :: "pylib \<Rightarrow> sdtype \<Rightarrow> pyval \<Rightarrow> pyval option" where
  "coerce_cell L SObject v = Some v"
| "coerce_cell L SStr (Str s) = Some (Str s)"
| "coerce_cell L SStr (Flt NaN) = Some Missing"
| "coerce_cell L SStr (Flt (Fin r)) = Some (Str (str_of_num L (Fin r)))"
| "coerce_cell L SStr (Flt (Inf b)) = Some (Str (str_of_num L (Inf b)))"
| "coerce_cell L SInt (Flt (Fin r)) = Some (Num (of_int (trunc r)))"
| "coerce_cell L SInt (Flt NaN) = None"
| "coerce_cell L SInt (Flt (Inf b)) = None"
| "coerce_cell L SInt (Str s) = map_option (\<lambda>n. Num (of_int n)) (int_of_str L s)"
| "coerce_cell L SFloat (Flt x) = Some (Flt x)"
| "coerce_cell L SFloat (Str s) = map_option Flt (float_of_str L s)"

text \<open>The dtype pandas gives a column of the schema's dtype.\<close>

fun pandas_dtype :: "sdtype \<Rightarrow> dtype" where
  "pandas_dtype SObject = Object"
| "pandas_dtype SStr = Object"
| "pandas_dtype SInt = Int64"
| "pandas_dtype SFloat = Float64"

definition coerce_column :: "pylib \<Rightarrow> sdtype \<Rightarrow> column \<Rightarrow> column option" where
  "coerce_column L t c =
     map_option (\<lambda>vs. c\<lparr>col_dtype := pandas_dtype t, col_cells := vs\<rparr>)
       (those (map (coerce_cell L t) (col_cells c)))"

text \<open>A check on one cell; a check passes over a missing value.\<close>

fun check_cell :: "check \<Rightarrow> pyval \<Rightarrow> bool" where
  "check_cell (Ge b) (Flt (Fin r)) = (b \<le> r)"
| "check_cell (Ge b) (Flt (Inf s)) = s"
| "check_cell (Ge b) (Flt NaN) = True"
| "check_cell (Ge b) (Str s) = False"

text \<open>The failures of one column that is present and has been cast.\<close>

definition column_failures :: "pystr \<Rightarrow> colspec \<Rightarrow> column \<Rightarrow> failure list" where
  "column_failures k sp c =
     (if col_dtype c = pandas_dtype (spec_dtype sp) then [] else [WrongDtype k]) @
     (if \<not> nullable sp \<and> list_ex isna (col_cells c) then [NotNullable k] else []) @
     (if list_all (\<lambda>chk. list_all (check_cell chk) (col_cells c)) (checks sp) then []
      else [CheckFailed k])"

text \<open>
  \<open>validate(df, lazy=True)\<close>: the columns of the schema in their order; every column
  must be present, is cast when \<open>coerce\<close> is set, and is then checked. The failures of
  all columns are collected; the cast columns replace the ones read.
\<close>

fun validate_columns ::
  "pylib \<Rightarrow> bool \<Rightarrow> (pystr \<times> colspec) list \<Rightarrow> frame \<Rightarrow> failure list \<times> frame" where
  "validate_columns L co [] df = ([], df)"
| "validate_columns L co ((k, sp) # rest) df =
     (case frame_get df k of
        None \<Rightarrow> (let (fs, df') = validate_columns L co rest df in (ColumnMissing k # fs, df'))
      | Some c \<Rightarrow>
         (case (if co then coerce_column L (spec_dtype sp) c else Some c) of
            None \<Rightarrow> (let (fs, df') = validate_columns L co rest df in (CoerceFailed k # fs, df'))
          | Some c' \<Rightarrow>
             (let (fs, df') = validate_columns L co rest (frame_set df c')
              in (column_failures k sp c' @ fs, df'))))"

definition validate :: "pylib \<Rightarrow> schema \<Rightarrow> frame \<Rightarrow> error + frame" where
  "validate L S df =
     (case validate_columns L (coerce S) (schema_columns S) df of
        ([], df') \<Rightarrow> Inr df'
      | (f # fs, df') \<Rightarrow> Inl (SchemaErrors (f # fs)))"

text \<open>\<open>load_data(path)\<close>; \<open>read_csv\<close> is the file system seen through
  \<open>pd.read_csv\<close>, which raises or gives a table.\<close>

definition load_data :: "pylib \<Rightarrow> ('p \<Rightarrow> error + frame) \<Rightarrow> 'p \<Rightarrow> error + frame" where
  "load_data L read_csv path =
     (case read_csv path of Inl e \<Rightarrow> Inl e | Inr df \<Rightarrow> validate L SCHEMA df)"

subsection \<open>The percentage column\<close>

text \<open>
  Division and multiplication in float64. An integer operand of the division is converted
  to float64 first; the result of either operation is rounded to a double. A finite
  number divided by zero gives an infinity, zero divided by zero gives NaN.
\<close>

fun fdiv :: "pylib \<Rightarrow> pyfloat \<Rightarrow> pyfloat \<Rightarrow> pyfloat" where
  "fdiv L (Fin x) (Fin y) =
     (if y = 0 then (if x = 0 then NaN else Inf (0 < x))
      else rnd L (float_of_num x / float_of_num y))"
| "fdiv L (Fin x) (Inf t) = Fin 0"
| "fdiv L (Inf s) (Fin y) = Inf (if 0 \<le> y then s else \<not> s)"
| "fdiv L (Inf s) (Inf t) = NaN"
| "fdiv L NaN y = NaN"
| "fdiv L x NaN = NaN"

fun fmul :: "pylib \<Rightarrow> pyfloat \<Rightarrow> pyfloat \<Rightarrow> pyfloat" where
  "fmul L (Fin x) (Fin y) = rnd L (x * y)"
| "fmul L (Fin x) (Inf t) = (if x = 0 then NaN else Inf (if 0 < x then t else \<not> t))"
| "fmul L (Inf s) (Fin y) = (if y = 0 then NaN else Inf (if 0 < y then s else \<not> s))"
| "fmul L (Inf s) (Inf t) = Inf (s = t)"
| "fmul L NaN y = NaN"
| "fmul L x NaN = NaN"

text \<open>Python's \<open>/\<close> and \<open>*\<close> where the program uses them: on text they raise.\<close>

fun py_div :: "pylib \<Rightarrow> pyval \<Rightarrow> pyval \<Rightarrow> error + pyval" where
  "py_div L (Flt a) (Flt b) = Inr (Flt (fdiv L a b))"
| "py_div L (Str a) y = Inl TypeError"
| "py_div L x (Str b) = Inl TypeError"

fun py_mul :: "pylib \<Rightarrow> pyval \<Rightarrow> pyval \<Rightarrow> error + pyval" where
  "py_mul L (Flt a) (Flt b) = Inr (Flt (fmul L a b))"
| "py_mul L (Str a) y = Inl TypeError"
| "py_mul L x (Str b) = Inl TypeError"

text \<open>
  \<open>Series.sum()\<close>, by the dtype of the column: int64 is summed in int64; on float64 the
  missing values are skipped; on the object dtype they are replaced by 0 and the values
  are added with \<open>+\<close> from the first one.
\<close>

definition series_sum :: "pylib \<Rightarrow> column \<Rightarrow> error + pyval" where
  "series_sum L c =
     (case col_dtype c of
        Int64 \<Rightarrow> Inr (Num (of_int (wrap64 (sum_list (int_cells (col_cells c))))))
      | Float64 \<Rightarrow> Inr (Flt (float_sum (series_sum_u L) (float_cells (dropna (col_cells c)))))
      | Object \<Rightarrow>
         (case map (\<lambda>v. if isna v then Num 0 else v) (col_cells c) of
            [] \<Rightarrow> Inr (Num 0)
          | v # vs \<Rightarrow> sum_from L v vs))"

text \<open>\<open>(series / total) * 100.0\<close>, cell by cell; the first cell that raises ends it.\<close>

fun percent_cells :: "pylib \<Rightarrow> pyval list \<Rightarrow> pyval \<Rightarrow> error + pyval list" where
  "percent_cells L [] tot = Inr []"
| "percent_cells L (v # vs) tot =
     (case py_div L v tot of
        Inl e \<Rightarrow> Inl e
      | Inr q \<Rightarrow>
         (case py_mul L q (Num 100) of
            Inl e \<Rightarrow> Inl e
          | Inr p \<Rightarrow>
             (case percent_cells L vs tot of Inl e \<Rightarrow> Inl e | Inr ps \<Rightarrow> Inr (p # ps))))"

text \<open>
  DataFrames are objects: a variable holds a reference, so two variables may name one
  table. The store lists the tables by address; \<open>df.copy()\<close> puts a copy of the table at
  the next free address and returns that address.
\<close>

type_synonym store = "frame list"

text \<open>\<open>ensure_percentage_column(df, year_col, pct_col)\<close>: the store afterwards, and
  the error raised or the address returned.\<close>

definition ensure_percentage_column ::
  "pylib \<Rightarrow> store \<Rightarrow> nat \<Rightarrow> pystr \<Rightarrow> pystr \<Rightarrow> store \<times> (error + nat)" where
  "ensure_percentage_column L h df year_col pct_col =
     (let out = length h;
          h1 = h @ [h ! df];
          f = h1 ! out
      in if (case frame_get f pct_col of None \<Rightarrow> True | Some c \<Rightarrow> list_ex isna (col_cells c))
         then (case frame_get f year_col of
                 None \<Rightarrow> (h1, Inl KeyError)
               | Some y \<Rightarrow>
                  (case series_sum L y of
                     Inl e \<Rightarrow> (h1, Inl e)
                   | Inr tot \<Rightarrow>
                      (case percent_cells L (col_cells y) tot of
                         Inl e \<Rightarrow> (h1, Inl e)
                       | Inr ps \<Rightarrow>
                          (h1[out := frame_set f
                                \<lparr>col_name = pct_col,
                                 col_dtype = (if col_dtype y = Object then Object else Float64),
                                 col_cells = ps\<rparr>],
                           Inr out))))
         else (h1, Inr out))"

section \<open>A library instance for concrete runs\<close>

text \<open>Text is ASCII only, a number written as text is a run of decimal digits, and
  no number is printed. The runs below stay where float64 is exact: the instance takes
  the real itself for the double of a real, and NaN for a sum beyond the exact range.\<close>

definition parse_digits :: "pystr \<Rightarrow> nat option" where
  "parse_digits s =
     (if s \<noteq> [] \<and> list_all (\<lambda>c. 48 \<le> c \<and> c \<le> 57) s
      then Some (foldl (\<lambda>a c. 10 * a + (c - 48)) 0 s) else None)"

definition ascii_only :: pylib where
  "ascii_only =
     \<lparr>nfkd = (\<lambda>c. []), lower_u = (\<lambda>s. s), isalpha_u = (\<lambda>c. False), isspace_u = (\<lambda>c. False),
      str_of_num = (\<lambda>x. []),
      to_numeric_str = (\<lambda>s. map_option (\<lambda>n. Fin (real n)) (parse_digits s)),
      float_of_str = (\<lambda>s. map_option (\<lambda>n. Fin (real n)) (parse_digits s)),
      int_of_str = (\<lambda>s. map_option int (parse_digits s)),
      double_of = (\<lambda>r. Fin r), groupby_sum_u = (\<lambda>xs. NaN), series_sum_u = (\<lambda>xs. NaN),
      py_add_u = (\<lambda>a b. NaN)\<rparr>"

text \<open>The scenario of the specification with one more name in the upload: the
  aggregate of an upload naming Assam, Kerala and Odisha, and the boundary features
  Orissa, Kerala and Goa.\<close>

definition example_agg :: "(pystr \<times> pyval) list" where
  "example_agg = [(py ''assam'', Num 5), (py ''kerala'', Num 40), (py ''orissa'', Num 100)]"

definition example_features :: "feature list" where
  "example_features =
     annotate_names ascii_only (py ''NAME_1'')
       [[(py ''NAME_1'', JStr (py ''Orissa''))], [(py ''NAME_1'', JStr (py ''Kerala''))],
        [(py ''NAME_1'', JStr (py '' Goa''))]]"


text \<open>Tables for the detection of the state column: a header in capitals after a
  column of text, a header that contains \<open>ut\<close> on a column of numbers after a column
  of text, two columns of numbers with no such header, a single column of text, and the
  columns Name, 2022 and Region.\<close>

definition example_capitals :: frame where
  "example_capitals =
     [\<lparr>col_name = py ''Name'', col_dtype = Object, col_cells = [Str (py ''Goa'')]\<rparr>,
      \<lparr>col_name = py ''STATE'', col_dtype = Object, col_cells = [Str (py ''GA'')]\<rparr>]"

definition example_output :: frame where
  "example_output =
     [\<lparr>col_name = py ''Name'', col_dtype = Object, col_cells = [Str (py ''Goa'')]\<rparr>,
      \<lparr>col_name = py ''Output'', col_dtype = Int64, col_cells = [Num 7]\<rparr>]"

definition example_numbers :: frame where
  "example_numbers =
     [\<lparr>col_name = py ''2022'', col_dtype = Int64, col_cells = [Num 7]\<rparr>,
      \<lparr>col_name = py ''Count'', col_dtype = Float64, col_cells = [Num 3]\<rparr>]"

definition example_state_only :: frame where
  "example_state_only =
     [\<lparr>col_name = py ''State'', col_dtype = Object, col_cells = [Str (py ''Goa'')]\<rparr>]"

definition example_names :: frame where
  "example_names =
     [\<lparr>col_name = py ''Name'', col_dtype = Object, col_cells = [Str (py ''Goa'')]\<rparr>,
      \<lparr>col_name = py ''2022'', col_dtype = Int64, col_cells = [Num 7]\<rparr>,
      \<lparr>col_name = py ''Region'', col_dtype = Object, col_cells = [Str (py ''West'')]\<rparr>]"

text \<open>A table with the two columns the percentage is computed from, a table of the
  shape the schema describes, and one with a negative count.\<close>

definition example_counts :: frame where
  "example_counts =
     [\<lparr>col_name = py ''State/UT'', col_dtype = Object,
       col_cells = [Str (py ''Goa''), Str (py ''Kerala'')]\<rparr>,
      \<lparr>col_name = py ''2022'', col_dtype = Int64, col_cells = [Num 30, Num 10]\<rparr>]"

definition example_valid :: frame where
  "example_valid =
     [\<lparr>col_name = py ''Sl. No.'', col_dtype = Int64, col_cells = [Num 1, Num 2]\<rparr>,
      \<lparr>col_name = py ''State/UT'', col_dtype = Object,
       col_cells = [Str (py ''Goa''), Str (py ''Kerala'')]\<rparr>,
      \<lparr>col_name = py ''2022'', col_dtype = Int64, col_cells = [Num 30, Num 10]\<rparr>,
      \<lparr>col_name = py ''percentage'', col_dtype = Float64, col_cells = [Missing, Missing]\<rparr>]"

definition example_invalid :: frame where
  "example_invalid =
     [\<lparr>col_name = py ''Sl. No.'', col_dtype = Int64, col_cells = [Num 1, Num 2]\<rparr>,
      \<lparr>col_name = py ''State/UT'', col_dtype = Object,
       col_cells = [Str (py ''Goa''), Str (py ''Kerala'')]\<rparr>,
      \<lparr>col_name = py ''2022'', col_dtype = Int64, col_cells = [Num 30, Num (- 4)]\<rparr>,
      \<lparr>col_name = py ''percentage'', col_dtype = Float64, col_cells = [Missing, Missing]\<rparr>]"

text \<open>A file system with these two tables.\<close>

definition example_files :: "string \<Rightarrow> error + frame" where
  "example_files path =
     (if path = ''valid.csv'' then Inr example_valid
      else if path = ''invalid.csv'' then Inr example_invalid
      else Inl FileError)"

section \<open>The detection and the aggregation as the specification words them\<close>

text \<open>A text contains a pattern when the pattern stands somewhere inside it.\<close>

definition contains_text :: "pystr \<Rightarrow> pystr \<Rightarrow> bool" where
  "contains_text pat s = (\<exists>a b. s = a @ pat @ b)"

text \<open>A header that names the state column: lower-cased, it contains \<open>state\<close> or
  \<open>ut\<close>.\<close>

definition names_state :: "pylib \<Rightarrow> pystr \<Rightarrow> bool" where
  "names_state L h =
     (contains_text (py ''state'') (str_lower L h) \<or> contains_text (py ''ut'') (str_lower L h))"




text \<open>
  A value of the aggregate that \<open>float\<close> converts without raising: a number, when
  finite of magnitude below \<open>2^1023\<close>; the number \<open>float\<close> gives for it; and a value
  that \<open>float\<close> leaves as it is: a number that is not whole, or whole of magnitude at
  most \<open>2^53\<close>.
\<close>

definition plain_number :: "pyval \<Rightarrow> bool" where
  "plain_number v =
     (case v of Flt (Fin r) \<Rightarrow> \<bar>r\<bar> < 2 ^ 1023 | Flt x \<Rightarrow> True | Str s \<Rightarrow> False)"

definition float_value :: "pyfloat \<Rightarrow> pyfloat" where
  "float_value x = (case x of Fin r \<Rightarrow> Fin (float_of_num r) | _ \<Rightarrow> x)"

definition exact_number :: "pyval \<Rightarrow> bool" where
  "exact_number v =
     (case v of
        Flt (Fin r) \<Rightarrow> \<bar>r\<bar> < 2 ^ 1023 \<and> (\<not> whole r \<or> \<bar>r\<bar> \<le> 2 ^ 53)
      | Flt x \<Rightarrow> True
      | Str s \<Rightarrow> False)"

section \<open>Auxiliary notions of the proofs\<close>

text \<open>A character that normalisation leaves alone, and a list of words made of such
  characters: the normal forms are these words joined by single spaces.\<close>

definition clean_char :: "nat \<Rightarrow> bool" where
  "clean_char c = (is_ascii c \<and> \<not> ascii_space c \<and> c \<noteq> 38 \<and> ascii_lower c = c)"

definition clean_tokens :: "pystr list \<Rightarrow> bool" where
  "clean_tokens ts = list_all (\<lambda>t. t \<noteq> [] \<and> list_all clean_char t) ts"

section \<open>Properties\<close>

subsection \<open>Normalisation\<close>

lemma clean_char_nospace: "clean_char c \<Longrightarrow> \<not> isspace L c"
  by (simp add: clean_char_def isspace_def)

lemma split_from_run:
  "list_all (\<lambda>c. \<not> isspace L c) t \<Longrightarrow> split_from L cur (t @ rest) = split_from L (cur @ t) rest"
  by (induction t arbitrary: cur) auto

lemma isspace_32: "isspace L 32"
  by (simp add: isspace_def is_ascii_def ascii_space_def)

lemma split_join:
  "clean_tokens ts \<Longrightarrow> split_from L [] (join_space ts) = ts"
proof (induction ts rule: join_space.induct)
  case 1
  then show ?case by simp
next
  case (2 t)
  then have "list_all (\<lambda>c. \<not> isspace L c) t" "t \<noteq> []"
    by (auto simp: clean_tokens_def list_all_iff clean_char_nospace)
  then show ?case using split_from_run[of L t "[]" "[]"] by simp
next
  case (3 t u ts)
  then have t: "list_all (\<lambda>c. \<not> isspace L c) t" "t \<noteq> []" and rest: "clean_tokens (u # ts)"
    by (auto simp: clean_tokens_def list_all_iff clean_char_nospace)
  have "split_from L [] (t @ 32 # join_space (u # ts)) = split_from L t (32 # join_space (u # ts))"
    using split_from_run[OF t(1), of "[]"] by simp
  also have "\<dots> = t # split_from L [] (join_space (u # ts))"
    using t(2) by (simp add: isspace_32)
  finally show ?case using 3(1)[OF rest] by simp
qed

lemma set_join_space: "set (join_space ts) \<subseteq> insert 32 (\<Union>(set ` set ts))"
  by (induction ts rule: join_space.induct) auto

lemma join_space_ascii: "clean_tokens ts \<Longrightarrow> list_all is_ascii (join_space ts)"
  by (induction ts rule: join_space.induct) (auto simp: clean_tokens_def clean_char_def list_all_iff is_ascii_def)

lemma join_space_no_amp: "clean_tokens ts \<Longrightarrow> 38 \<notin> set (join_space ts)"
  by (induction ts rule: join_space.induct) (auto simp: clean_tokens_def clean_char_def list_all_iff)

lemma join_space_lower: "clean_tokens ts \<Longrightarrow> map ascii_lower (join_space ts) = join_space ts"
  by (induction ts rule: join_space.induct) (auto simp: clean_tokens_def clean_char_def list_all_iff ascii_lower_def map_idI)

lemma join_space_ends:
  "clean_tokens ts \<Longrightarrow> join_space ts = [] \<or> (\<not> isspace L (hd (join_space ts)) \<and> \<not> isspace L (last (join_space ts)))"
proof (induction ts rule: join_space.induct)
  case 1 then show ?case by simp
next
  case (2 t)
  then show ?case by (cases t) (auto simp: clean_tokens_def list_all_iff clean_char_nospace)
next
  case (3 t u ts)
  then have rest: "clean_tokens (u # ts)" and u: "u \<noteq> []" and t: "t \<noteq> []" "\<not> isspace L (hd t)"
    by (auto simp: clean_tokens_def list_all_iff clean_char_nospace)
  have ne: "join_space (u # ts) \<noteq> []" using u by (cases ts) auto
  from 3(1)[OF rest] ne t show ?case by (cases t) auto
qed

lemma dropWhile_hd: "xs = [] \<or> \<not> P (hd xs) \<Longrightarrow> dropWhile P xs = xs"
  by (cases xs) auto

lemma strip_id: "s = [] \<or> (\<not> isspace L (hd s) \<and> \<not> isspace L (last s)) \<Longrightarrow> str_strip L s = s"
  unfolding str_strip_def
  by (auto simp: dropWhile_hd hd_rev)

lemma ascii_fold_id: "list_all is_ascii s \<Longrightarrow> ascii_fold L s = s"
  unfolding ascii_fold_def by (induction s) auto

lemma replace_amp_id: "38 \<notin> set s \<Longrightarrow> replace_amp s = s"
  unfolding replace_amp_def by (induction s) auto

lemma normalize_clean:
  assumes "clean_tokens ts"
  shows "normalize_text L (Some (join_space ts)) = join_space ts"
  using assms
  by (simp add: ascii_fold_id join_space_ascii strip_id join_space_ends replace_amp_id
      join_space_no_amp str_split_def split_join str_lower_def join_space_lower)


lemma split_from_tokens:
  "list_all (\<lambda>c. P c \<and> \<not> isspace L c) cur \<Longrightarrow> list_all P s \<Longrightarrow>
   list_all (\<lambda>t. t \<noteq> [] \<and> list_all (\<lambda>c. P c \<and> \<not> isspace L c) t) (split_from L cur s)"
  by (induction s arbitrary: cur) auto

lemma map_lower_join: "map ascii_lower (join_space ts) = join_space (map (map ascii_lower) ts)"
  by (induction ts rule: join_space.induct) (auto simp: ascii_lower_def)

lemma list_all_filter_same: "list_all P (filter P xs)"
  by (induction xs) simp_all

lemma ascii_fold_ascii: "list_all is_ascii (ascii_fold L s)"
  unfolding ascii_fold_def by (induction s) (simp_all add: list_all_filter_same)

lemma strip_subset: "set (str_strip L s) \<subseteq> set s"
proof
  fix c assume "c \<in> set (str_strip L s)"
  then have "c \<in> set (dropWhile (isspace L) (rev (dropWhile (isspace L) s)))"
    by (simp add: str_strip_def)
  then have "c \<in> set (rev (dropWhile (isspace L) s))" by (rule set_dropWhileD)
  then have "c \<in> set (dropWhile (isspace L) s)" by simp
  then show "c \<in> set s" by (rule set_dropWhileD)
qed

lemma replace_amp_chars: "list_all is_ascii s \<Longrightarrow> list_all (\<lambda>c. is_ascii c \<and> c \<noteq> 38) (replace_amp s)"
  unfolding replace_amp_def
  by (induction s) (auto simp: py_def is_ascii_def)

lemma lower_clean: "is_ascii c \<and> c \<noteq> 38 \<and> \<not> isspace L c \<Longrightarrow> clean_char (ascii_lower c)"
proof -
  assume a: "is_ascii c \<and> c \<noteq> 38 \<and> \<not> isspace L c"
  then have c: "c < 128" "c \<noteq> 38" "\<not> ascii_space c"
    by (auto simp: is_ascii_def isspace_def)
  show ?thesis
  proof (cases "65 \<le> c \<and> c \<le> 90")
    case True
    then have "ascii_lower c = c + 32" by (simp add: ascii_lower_def)
    with True show ?thesis
      by (simp add: clean_char_def is_ascii_def ascii_space_def ascii_lower_def)
  next
    case False
    then have "ascii_lower c = c" by (simp add: ascii_lower_def)
    with c show ?thesis
      by (simp add: clean_char_def is_ascii_def)
  qed
qed

lemma join_tokens_ascii:
  "list_all (\<lambda>t. list_all is_ascii t) ts \<Longrightarrow> list_all is_ascii (join_space ts)"
  by (induction ts rule: join_space.induct) (auto simp: is_ascii_def)

lemma normalize_text_tokens:
  "\<exists>ts. clean_tokens ts \<and> normalize_text L (Some s) = join_space ts"
proof -
  define r where "r = replace_amp (str_strip L (ascii_fold L s))"
  define ts0 where "ts0 = str_split L r"
  have "list_all is_ascii (str_strip L (ascii_fold L s))"
    using ascii_fold_ascii[of L s] strip_subset[of L "ascii_fold L s"]
    by (auto simp: list_all_iff)
  then have r: "list_all (\<lambda>c. is_ascii c \<and> c \<noteq> 38) r"
    unfolding r_def by (rule replace_amp_chars)
  have ts0: "list_all (\<lambda>t. t \<noteq> [] \<and> list_all (\<lambda>c. (is_ascii c \<and> c \<noteq> 38) \<and> \<not> isspace L c) t) ts0"
    unfolding ts0_def str_split_def
    by (rule split_from_tokens) (use r in simp_all)
  then have "list_all (\<lambda>t. list_all is_ascii t) ts0"
    by (auto simp: list_all_iff)
  then have asc: "list_all is_ascii (join_space ts0)"
    by (rule join_tokens_ascii)
  have clean: "clean_tokens (map (map ascii_lower) ts0)"
    using ts0 lower_clean[of _ L] by (simp add: clean_tokens_def list_all_iff)
  have "normalize_text L (Some s) = join_space (map (map ascii_lower) ts0)"
    using asc by (simp add: str_lower_def map_lower_join r_def ts0_def)
  with clean show ?thesis by blast
qed


lemma normalize_text_twice:
  "normalize_text L (Some (normalize_text L (Some x))) = normalize_text L (Some x)"
proof -
  obtain ts where "clean_tokens ts" "normalize_text L (Some x) = join_space ts"
    using normalize_text_tokens by blast
  then show ?thesis using normalize_clean[of ts L] by simp
qed

text \<open>
  C7. Normalisation is idempotent: for every text \<open>x\<close>, normalising the normal form of
  \<open>x\<close> gives it back, whatever the Unicode tables hold.
\<close>

theorem normalize_text_idempotent:
  "normalize_text L (Some (normalize_text L (Some x))) = normalize_text L (Some x)"
  by (rule normalize_text_twice)


lemmas text_defs = py_def str_lower_def str_split_def replace_amp_def str_strip_def ascii_fold_def
  is_ascii_def isspace_def ascii_space_def ascii_lower_def

lemma alias_values_fixed:
  "list_all (\<lambda>v. normalize_text L (Some v) = v) (map snd COMMON_NAME_MAP)"
  by (simp add: COMMON_NAME_MAP_def text_defs)

lemma apply_common_map_fixed:
  "normalize_text L (Some (apply_common_map L name)) = apply_common_map L name"
proof (cases "map_of COMMON_NAME_MAP (normalize_text L name)")
  case None
  then have eq: "apply_common_map L name = normalize_text L name"
    by (simp add: apply_common_map_def)
  show ?thesis
  proof (cases name)
    case None
    then show ?thesis unfolding eq by (simp add: text_defs)
  next
    case (Some x)
    then show ?thesis unfolding eq by (simp only: normalize_text_twice)
  qed
next
  case (Some v)
  then have eq: "apply_common_map L name = v"
    by (simp add: apply_common_map_def)
  from Some have "v \<in> set (map snd COMMON_NAME_MAP)"
    by (metis map_of_SomeD image_eqI set_map snd_conv)
  with alias_values_fixed[of L] have "normalize_text L (Some v) = v"
    by (simp only: list_all_iff)
  then show ?thesis unfolding eq .
qed

text \<open>
  C8. Every value of the alias table is its own normal form, and so is every result of
  the alias resolver, on a name or on a missing value.
\<close>

theorem alias_table_normalized:
  "list_all (\<lambda>v. normalize_text L (Some v) = v) (map snd COMMON_NAME_MAP) \<and>
   normalize_text L (Some (apply_common_map L name)) = apply_common_map L name"
  using alias_values_fixed apply_common_map_fixed by blast

subsection \<open>Aggregation of the example\<close>

text \<open>
  C2. On the records (Odisha, 10), (Orissa, 5), (Kerala, 3) the aggregation returns,
  whichever dtype the metric column has, and the mapping built from it is exactly orissa
  to 15 and kerala to 3: Odisha and Orissa have the canonical key orissa and their
  metrics are added, Kerala has its own entry.
\<close>

theorem aggregate_example:
  "df_agg L Int64 [(Str (py ''Odisha''), Num 10), (Str (py ''Orissa''), Num 5), (Str (py ''Kerala''), Num 3)]
     = Inr [(py ''kerala'', Num 3), (py ''orissa'', Num 15)] \<and>
   df_agg L Float64 [(Str (py ''Odisha''), Num 10), (Str (py ''Orissa''), Num 5), (Str (py ''Kerala''), Num 3)]
     = Inr [(py ''kerala'', Num 3), (py ''orissa'', Num 15)] \<and>
   df_agg L Object [(Str (py ''Odisha''), Num 10), (Str (py ''Orissa''), Num 5), (Str (py ''Kerala''), Num 3)]
     = Inr [(py ''kerala'', Num 3), (py ''orissa'', Num 15)] \<and>
   state_to_value [(py ''kerala'', Num 3), (py ''orissa'', Num 15)]
     = [py ''orissa'' \<mapsto> Num 15, py ''kerala'' \<mapsto> Num 3] \<and>
   apply_common_map L (Some (py ''Odisha'')) = py ''orissa'' \<and>
   apply_common_map L (Some (py ''Orissa'')) = py ''orissa'' \<and>
   apply_common_map L (Some (py ''Kerala'')) = py ''kerala''"
proof -
  have "df_agg L Int64 [(Str (py ''Odisha''), Num 10), (Str (py ''Orissa''), Num 5), (Str (py ''Kerala''), Num 3)]
     = Inr [(py ''kerala'', Num 3), (py ''orissa'', Num 15)]"
    by (simp add: df_agg_def state_norm_of_def astype_str_def apply_common_map_def
        COMMON_NAME_MAP_def text_defs group_sum_def int_cells_def wrap64_def)
  moreover have "df_agg L Float64 [(Str (py ''Odisha''), Num 10), (Str (py ''Orissa''), Num 5), (Str (py ''Kerala''), Num 3)]
     = Inr [(py ''kerala'', Num 3), (py ''orissa'', Num 15)]"
    by (simp add: df_agg_def state_norm_of_def astype_str_def apply_common_map_def
        COMMON_NAME_MAP_def text_defs group_sum_def float_cells_def float_sum_def whole_def
        dropna_def isna_def)
  moreover have "df_agg L Object [(Str (py ''Odisha''), Num 10), (Str (py ''Orissa''), Num 5), (Str (py ''Kerala''), Num 3)]
     = Inr [(py ''kerala'', Num 3), (py ''orissa'', Num 15)]"
    by (simp add: df_agg_def state_norm_of_def astype_str_def apply_common_map_def
        COMMON_NAME_MAP_def text_defs group_sum_def whole_def dropna_def isna_def)
  moreover have "state_to_value [(py ''kerala'', Num 3), (py ''orissa'', Num 15)]
     = [py ''orissa'' \<mapsto> Num 15, py ''kerala'' \<mapsto> Num 3]"
    by (auto simp: state_to_value_def fun_eq_iff py_def)
  moreover have "apply_common_map L (Some (py ''Odisha'')) = py ''orissa''"
    by (simp add: apply_common_map_def COMMON_NAME_MAP_def text_defs)
  moreover have "apply_common_map L (Some (py ''Orissa'')) = py ''orissa''"
    by (simp add: apply_common_map_def COMMON_NAME_MAP_def text_defs)
  moreover have "apply_common_map L (Some (py ''Kerala'')) = py ''kerala''"
    by (simp add: apply_common_map_def COMMON_NAME_MAP_def text_defs)
  ultimately show ?thesis by blast
qed

subsection \<open>The state key of the boundary properties\<close>

lemma find_lower_Some:
  "cand \<in> set (map (\<lambda>k. str_lower L k) ks) \<Longrightarrow> \<exists>k. find (\<lambda>k. str_lower L k = cand) ks = Some k"
  by (induction ks) auto

lemma scan_candidates_find:
  "scan_candidates L props cands =
     (case find (\<lambda>c. c \<in> set (map (\<lambda>k. str_lower L k) (map fst props))) cands of
        None \<Rightarrow> None
      | Some c \<Rightarrow> find (\<lambda>k. str_lower L k = c) (map fst props))"
proof (induction cands)
  case Nil
  then show ?case by simp
next
  case (Cons c cs)
  show ?case
  proof (cases "c \<in> set (map (\<lambda>k. str_lower L k) (map fst props))")
    case True
    then obtain k where "find (\<lambda>k. str_lower L k = c) (map fst props) = Some k"
      using find_lower_Some by blast
    with True show ?thesis by simp
  next
    case False
    with Cons show ?thesis by simp
  qed
qed

lemma find_Some_mem: "find P xs = Some x \<Longrightarrow> x \<in> set xs \<and> P x"
  by (induction xs) (auto split: if_splits)

lemma scan_candidates_key:
  "scan_candidates L props cands = Some k \<Longrightarrow> k \<in> fst ` set props \<and> str_lower L k \<in> set cands"
  unfolding scan_candidates_find
  by (auto split: option.splits dest!: find_Some_mem)

lemma scan_candidates_None:
  "scan_candidates L props cands = None \<Longrightarrow> set cands \<inter> str_lower L ` fst ` set props = {}"
proof -
  assume a: "scan_candidates L props cands = None"
  show ?thesis
  proof (cases "find (\<lambda>c. c \<in> set (map (\<lambda>k. str_lower L k) (map fst props))) cands")
    case None
    then show ?thesis by (auto simp: find_None_iff)
  next
    case (Some c)
    then have "c \<in> set (map (\<lambda>k. str_lower L k) (map fst props))"
      using find_Some_mem by fastforce
    then obtain k where "find (\<lambda>k. str_lower L k = c) (map fst props) = Some k"
      using find_lower_Some by blast
    with a Some show ?thesis by (simp add: scan_candidates_find)
  qed
qed


text \<open>
  C4, as the code has it. On properties with at least one entry the detector returns a
  key of the properties and does not raise. The key is found in this order: for the
  first candidate of the preference list that some lower-cased key equals, the first key
  that lower-cases to it; otherwise the key of the first entry whose value reads as a
  place name; otherwise the first key.
\<close>

theorem detect_state_key_nonempty:
  assumes "props \<noteq> []"
  shows "\<exists>k. detect_state_key_from_props L props = Inr k \<and> k \<in> fst ` set props \<and>
     (case find (\<lambda>c. c \<in> set (map (\<lambda>k. str_lower L k) (map fst props))) state_key_candidates of
        Some c \<Rightarrow> find (\<lambda>k. str_lower L k = c) (map fst props) = Some k
      | None \<Rightarrow>
         (case find (\<lambda>(k, v). plausible_name L (py_str L v)) props of
            Some (k', v) \<Rightarrow> k = k'
          | None \<Rightarrow> k = fst (hd props)))"
proof (cases "scan_candidates L props state_key_candidates")
  case (Some k)
  then have "detect_state_key_from_props L props = Inr k"
    by (simp add: detect_state_key_from_props_def)
  moreover have "k \<in> fst ` set props"
    using scan_candidates_key[OF Some] by simp
  moreover have "case find (\<lambda>c. c \<in> set (map (\<lambda>k. str_lower L k) (map fst props))) state_key_candidates of
        Some c \<Rightarrow> find (\<lambda>k. str_lower L k = c) (map fst props) = Some k
      | None \<Rightarrow>
         (case find (\<lambda>(k, v). plausible_name L (py_str L v)) props of
            Some (k', v) \<Rightarrow> k = k'
          | None \<Rightarrow> k = fst (hd props))"
    using Some unfolding scan_candidates_find by (simp split: option.splits)
  ultimately show ?thesis by blast
next
  case None
  then have nocand: "find (\<lambda>c. c \<in> set (map (\<lambda>k. str_lower L k) (map fst props))) state_key_candidates = None"
    using scan_candidates_None[OF None] by (auto simp: find_None_iff)
  show ?thesis
  proof (cases "find (\<lambda>(k, v). plausible_name L (py_str L v)) props")
    case (Some kv)
    then have "kv \<in> set props" using find_Some_mem by fastforce
    then have "fst kv \<in> fst ` set props" by (rule imageI)
    with None Some nocand show ?thesis
      by (cases kv) (simp add: detect_state_key_from_props_def)
  next
    case N2: None
    from assms obtain kv rest where "props = kv # rest" by (cases props) auto
    with None N2 nocand show ?thesis
      by (cases kv) (simp add: detect_state_key_from_props_def)
  qed
qed

theorem detect_state_key_nonempty_witness:
  "[(py ''ID'', JStr (py ''07'')), (py ''NAME_1'', JStr (py ''Goa''))] \<noteq> [] \<and>
   detect_state_key_from_props ascii_only [(py ''ID'', JStr (py ''07'')), (py ''NAME_1'', JStr (py ''Goa''))]
     = Inr (py ''NAME_1'')"
  using detect_state_key_nonempty [of "[(py ''ID'', JStr (py ''07'')), (py ''NAME_1'', JStr (py ''Goa''))]" ascii_only]
  by (simp add: detect_state_key_from_props_def state_key_candidates_def text_defs ascii_only_def)

text \<open>On properties with no entry the last line raises \<open>IndexError\<close>.\<close>

theorem detect_state_key_empty_raises:
  "detect_state_key_from_props ascii_only [] = Inl IndexError"
  by (simp add: detect_state_key_from_props_def state_key_candidates_def)


subsection \<open>The state column and the metric columns of the uploaded table\<close>

lemma first_of_filter: "(case filter P xs of [] \<Rightarrow> None | x # ys \<Rightarrow> Some x) = find P xs"
  by (induction xs) auto

lemma find_map_name: "find P (map f xs) = map_option f (find (\<lambda>x. P (f x)) xs)"
  by (induction xs) auto

lemma state_col_find:
  "state_col L df =
     (case find (\<lambda>c. state_header L (col_name c)) df of
        Some c \<Rightarrow> Some (col_name c)
      | None \<Rightarrow>
         (case find (\<lambda>c. col_dtype c = Object) df of
            Some c \<Rightarrow> Some (col_name c)
          | None \<Rightarrow> None))"
proof -
  have a: "(case state_candidates L df of [] \<Rightarrow> None | c # cs \<Rightarrow> Some c)
           = map_option col_name (find (\<lambda>c. state_header L (col_name c)) df)"
    unfolding state_candidates_def columns_def first_of_filter find_map_name ..
  have b: "(case object_cols df of [] \<Rightarrow> None | c # cs \<Rightarrow> Some c)
           = map_option col_name (find (\<lambda>c. col_dtype c = Object) df)"
    unfolding object_cols_def
    by (induction df) auto
  show ?thesis
  proof (cases "find (\<lambda>c. state_header L (col_name c)) df")
    case None
    with a have "state_candidates L df = []"
      by (cases "state_candidates L df") simp_all
    with None b show ?thesis
      by (cases "find (\<lambda>c. col_dtype c = Object) df"; cases "object_cols df")
         (simp_all add: state_col_def)
  next
    case (Some c)
    with a obtain cs where "state_candidates L df = col_name c # cs"
      by (cases "state_candidates L df") simp_all
    with Some show ?thesis by (simp add: state_col_def)
  qed
qed



lemma str_contains_iff: "str_contains pat s \<longleftrightarrow> contains_text pat s"
  unfolding contains_text_def
proof (induction s)
  case Nil
  then show ?case by auto
next
  case (Cons c cs)
  show ?case
  proof
    assume "str_contains pat (c # cs)"
    then consider "take (length pat) (c # cs) = pat" | "str_contains pat cs" by auto
    then show "\<exists>a b. c # cs = a @ pat @ b"
    proof cases
      case 1
      then have "c # cs = [] @ pat @ drop (length pat) (c # cs)"
        by (metis append_Nil append_take_drop_id)
      then show ?thesis by blast
    next
      case 2
      with Cons obtain a b where "cs = a @ pat @ b" by blast
      then have "c # cs = (c # a) @ pat @ b" by simp
      then show ?thesis by blast
    qed
  next
    assume "\<exists>a b. c # cs = a @ pat @ b"
    then obtain a b where ab: "c # cs = a @ pat @ b" by blast
    show "str_contains pat (c # cs)"
    proof (cases a)
      case Nil
      with ab have "take (length pat) (c # cs) = pat" by simp
      then show ?thesis by simp
    next
      case (Cons x a')
      with ab have "cs = a' @ pat @ b" by simp
      with Cons.IH have "str_contains pat cs" by blast
      then show ?thesis by simp
    qed
  qed
qed

lemma state_header_names_state: "state_header L h = names_state L h"
  by (simp add: state_header_def names_state_def str_contains_iff)


text \<open>
  C6. The state column is the first column whose lower-cased header contains
  \<open>state\<close> or \<open>ut\<close>, whatever the column holds; with no such header, the first
  column of dtype object, which is the first column holding text; with neither, the
  detection fails. The columns Name (text), 2022 (numbers) and Region (text) give Name; a
  header STATE in capitals is preferred to a column of text before it; so is the header
  Output, which contains \<open>ut\<close>, on a column of numbers; two columns of numbers with no
  such header give the failure.
\<close>

theorem state_col_priority:
  "state_col L df =
     (case find (\<lambda>c. names_state L (col_name c)) df of
        Some c \<Rightarrow> Some (col_name c)
      | None \<Rightarrow>
         (case find (\<lambda>c. col_dtype c = Object) df of
            Some c \<Rightarrow> Some (col_name c)
          | None \<Rightarrow> None)) \<and>
   state_col L example_names = Some (py ''Name'') \<and>
   state_col L example_capitals = Some (py ''STATE'') \<and>
   state_col L example_output = Some (py ''Output'') \<and>
   state_col L example_numbers = None"
proof -
  have "state_col L example_names = Some (py ''Name'')"
    by (simp add: example_names_def state_col_def state_candidates_def columns_def
        state_header_def object_cols_def text_defs)
  moreover have "state_col L example_capitals = Some (py ''STATE'')"
    by (simp add: example_capitals_def state_col_def state_candidates_def columns_def
        state_header_def object_cols_def text_defs)
  moreover have "state_col L example_output = Some (py ''Output'')"
    by (simp add: example_output_def state_col_def state_candidates_def columns_def
        state_header_def object_cols_def text_defs)
  moreover have "state_col L example_numbers = None"
    by (simp add: example_numbers_def state_col_def state_candidates_def columns_def
        state_header_def object_cols_def text_defs)
  ultimately show ?thesis
    using state_col_find[of L df] by (simp add: state_header_names_state)
qed

lemma numeric_fold_nonempty:
  "acc \<noteq> [] \<Longrightarrow>
   fold (\<lambda>c acc. if col_name c \<in> set acc then acc
                  else if to_numeric_ok L (take 20 (dropna (col_cells c))) then acc @ [col_name c]
                  else acc) df acc \<noteq> []"
  by (induction df arbitrary: acc) auto

lemma no_columns:
  assumes "object_cols df = []" "numeric_cols L df = []"
  shows "df = []"
proof -
  have "map col_name (filter (\<lambda>c. col_dtype c \<noteq> Object) df) = []"
    using assms(2) numeric_fold_nonempty unfolding numeric_cols_def by blast
  then have 1: "filter (\<lambda>c. col_dtype c \<noteq> Object) df = []" by simp
  have 2: "filter (\<lambda>c. col_dtype c = Object) df = []"
    using assms(1) by (simp add: object_cols_def)
  show ?thesis
  proof (cases df)
    case Nil then show ?thesis .
  next
    case (Cons c cs)
    with 1 2 show ?thesis by (cases "col_dtype c = Object") auto
  qed
qed



lemma state_col_None_object: "state_col L t = None \<Longrightarrow> object_cols t = []"
  by (auto simp: state_col_def split: list.splits)

lemma no_state_col_numeric:
  assumes "t \<noteq> []" "state_col L t = None"
  shows "numeric_cols L t \<noteq> []"
proof -
  have "object_cols t = []" using assms(2) by (rule state_col_None_object)
  then have "filter (\<lambda>c. col_dtype c = Object) t = []" by (simp add: object_cols_def)
  then have "\<forall>c \<in> set t. col_dtype c \<noteq> Object" by (simp add: filter_empty_conv)
  then have "filter (\<lambda>c. col_dtype c \<noteq> Object) t = t" by simp
  with assms(1) have "map col_name (filter (\<lambda>c. col_dtype c \<noteq> Object) t) \<noteq> []" by simp
  then show ?thesis unfolding numeric_cols_def by (rule numeric_fold_nonempty)
qed

lemma no_numeric_state_col:
  assumes "t \<noteq> []" "numeric_cols L t = []"
  shows "state_col L t \<noteq> None"
  using assms no_state_col_numeric by blast


text \<open>
  C3, as the code has it. A column that pandas reads is of text or converts to numbers,
  so an upload with no column of text and no column that converts to numbers has no
  column at all: it cannot be read, the script shows the failure of the read and stops,
  and neither the missing state column nor the missing metric column is reported. On a
  table that is read the order is fixed: the state column first, and when it is missing
  the script stops with that message, although a column of numbers exists; the metric
  columns are checked only once a state column is found. A run shows at most one
  message.
\<close>

theorem upload_failures:
  "(object_cols t = [] \<and> numeric_cols L t = [] \<longrightarrow> run_upload L t = ([ReadFailed], None)) \<and>
   (t \<noteq> [] \<and> state_col L t = None \<longrightarrow>
      run_upload L t = ([NoStateColumn], None) \<and> numeric_cols L t \<noteq> []) \<and>
   (t \<noteq> [] \<and> numeric_cols L t = [] \<longrightarrow>
      run_upload L t = ([NoMetricColumn], None) \<and> state_col L t \<noteq> None) \<and>
   length (fst (run_upload L t)) \<le> 1"
proof -
  have 1: "run_upload L t = ([ReadFailed], None)" if "object_cols t = [] \<and> numeric_cols L t = []"
  proof -
    from that have "t = []" using no_columns by blast
    then show ?thesis by (simp add: run_upload_def read_upload_def)
  qed
  have 2: "run_upload L t = ([NoStateColumn], None) \<and> numeric_cols L t \<noteq> []"
    if "t \<noteq> [] \<and> state_col L t = None"
    using that no_state_col_numeric[of t L]
    by (simp add: run_upload_def read_upload_def detect_columns_def)
  have 3: "run_upload L t = ([NoMetricColumn], None) \<and> state_col L t \<noteq> None"
    if "t \<noteq> [] \<and> numeric_cols L t = []"
  proof -
    from that have "state_col L t \<noteq> None" using no_numeric_state_col by blast
    then obtain sc where "state_col L t = Some sc" by blast
    with that show ?thesis
      by (simp add: run_upload_def read_upload_def detect_columns_def)
  qed
  have 4: "length (fst (run_upload L t)) \<le> 1"
    by (simp add: run_upload_def read_upload_def detect_columns_def split: option.splits)
  from 1 2 3 4 show ?thesis by blast
qed

theorem upload_failures_witness:
  "run_upload ascii_only [] = ([ReadFailed], None) \<and>
   run_upload ascii_only example_numbers = ([NoStateColumn], None) \<and>
   run_upload ascii_only example_state_only = ([NoMetricColumn], None)"
proof -
  have a: "object_cols [] = [] \<and> numeric_cols ascii_only [] = []"
    by (simp add: object_cols_def numeric_cols_def)
  have b: "example_numbers \<noteq> [] \<and> state_col ascii_only example_numbers = None"
    by (simp add: example_numbers_def state_col_def state_candidates_def columns_def
        state_header_def object_cols_def text_defs)
  have c: "example_state_only \<noteq> [] \<and> numeric_cols ascii_only example_state_only = []"
    by (simp add: example_state_only_def numeric_cols_def to_numeric_ok_def dropna_def isna_def
        ascii_only_def parse_digits_def py_def)
  from a b c
    upload_failures[of "[]" ascii_only]
    upload_failures[of example_numbers ascii_only]
    upload_failures[of example_state_only ascii_only]
  show ?thesis by blast
qed


text \<open>The upload with no column is reported as a failure of the read, and as nothing
  else.\<close>

theorem upload_without_columns:
  "run_upload ascii_only [] = ([ReadFailed], None)"
  by (simp add: run_upload_def read_upload_def)


subsection \<open>Integers and floats\<close>


lemma round_53_nonneg: "0 \<le> n \<Longrightarrow> 0 \<le> round_53 n"
  unfolding round_53_def Let_def
  by (auto simp: pos_imp_zdiv_nonneg_iff)

lemma round_53_small:
  assumes "0 \<le> n" "n \<le> 2 ^ 53"
  shows "round_53 n = n"
proof (cases "bitlen n \<le> 53")
  case True
  then show ?thesis by (simp add: round_53_def)
next
  case False
  then have b: "54 \<le> bitlen n" by simp
  then have pos: "0 < n" using bitlen_eq_zero_iff[of n] assms(1) by (cases "n = 0") auto
  from bitlen_bounds[OF pos] have lo: "2 ^ nat (bitlen n - 1) \<le> n" by simp
  have "53 \<le> nat (bitlen n - 1)" using b by simp
  then have "(2::int) ^ 53 \<le> 2 ^ nat (bitlen n - 1)"
    by (rule power_increasing) simp
  from this lo have "2 ^ 53 \<le> n" by (rule order_trans)
  with assms(2) have n: "n = 2 ^ 53" by simp
  have "bitlen n = 54"
    using bitlen_pow2[of 1 53] unfolding n by (simp add: bitlen_alt_def)
  then show ?thesis
    unfolding round_53_def Let_def n by simp
qed

lemma round_53_le_double:
  assumes "0 \<le> n"
  shows "round_53 n \<le> 2 * n"
proof (cases "bitlen n \<le> 53")
  case True
  with assms show ?thesis by (simp add: round_53_def)
next
  case False
  then have b: "54 \<le> bitlen n" by simp
  then have pos: "0 < n" using bitlen_eq_zero_iff[of n] assms by (cases "n = 0") auto
  define s where "s = nat (bitlen n - 53)"
  from bitlen_bounds[OF pos] have lo: "2 ^ nat (bitlen n - 1) \<le> n" by simp
  have "s \<le> nat (bitlen n - 1)" unfolding s_def using b by simp
  then have "(2::int) ^ s \<le> 2 ^ nat (bitlen n - 1)"
    by (rule power_increasing) simp
  from this lo have s_le: "2 ^ s \<le> n" by (rule order_trans)
  have q: "n div 2 ^ s * 2 ^ s \<le> n"
    by (metis mult.commute div_mult_mod_eq le_add_same_cancel1 pos_mod_sign zero_less_numeral zero_less_power)
  have "(n div 2 ^ s + 1) * 2 ^ s = n div 2 ^ s * 2 ^ s + 2 ^ s"
    by (simp add: algebra_simps)
  with q s_le have "(n div 2 ^ s + 1) * 2 ^ s \<le> 2 * n" by simp
  moreover from q assms have "n div 2 ^ s * 2 ^ s \<le> 2 * n" by simp
  ultimately show ?thesis
    using False unfolding round_53_def Let_def s_def by simp
qed

lemma float_of_int_small: "\<bar>n\<bar> \<le> 2 ^ 53 \<Longrightarrow> float_of_int n = of_int n"
  unfolding float_of_int_def
  by (auto simp: round_53_small)

lemma float_of_int_nonneg: "0 \<le> n \<Longrightarrow> 0 \<le> float_of_int n"
  unfolding float_of_int_def by (simp add: round_53_nonneg)

lemma round_53_real_bound:
  assumes "0 \<le> m"
  shows "\<bar>real_of_int (round_53 m)\<bar> \<le> 2 * real_of_int m"
proof -
  have a: "0 \<le> round_53 m" using assms by (rule round_53_nonneg)
  have b: "round_53 m \<le> 2 * m" using assms by (rule round_53_le_double)
  have "real_of_int (round_53 m) \<le> real_of_int (2 * m)"
    using b by (simp only: of_int_le_iff)
  with a show ?thesis by simp
qed

lemma float_of_int_bound: "\<bar>float_of_int n\<bar> \<le> 2 * \<bar>of_int n\<bar>"
proof (cases "0 \<le> n")
  case True
  with round_53_real_bound[OF True] show ?thesis by (simp add: float_of_int_def)
next
  case False
  then have m: "0 \<le> - n" by simp
  from round_53_real_bound[OF m] False show ?thesis by (simp add: float_of_int_def)
qed


lemma whole_floor: "whole r \<Longrightarrow> r = of_int \<lfloor>r\<rfloor>"
  by (simp only: whole_def)

lemma float_of_num_exact: "\<not> whole r \<or> \<bar>r\<bar> \<le> 2 ^ 53 \<Longrightarrow> float_of_num r = r"
proof (cases "whole r")
  case False
  then show ?thesis by (simp add: float_of_num_def)
next
  case True
  assume "\<not> whole r \<or> \<bar>r\<bar> \<le> 2 ^ 53"
  with True have le: "\<bar>r\<bar> \<le> 2 ^ 53" by simp
  from True have r: "r = of_int \<lfloor>r\<rfloor>" by (rule whole_floor)
  have "\<bar>\<lfloor>r\<rfloor>\<bar> \<le> 2 ^ 53"
  proof -
    have "\<bar>real_of_int \<lfloor>r\<rfloor>\<bar> \<le> 2 ^ 53" using le r by simp
    then have "real_of_int \<bar>\<lfloor>r\<rfloor>\<bar> \<le> real_of_int (2 ^ 53)" by simp
    then show ?thesis by (simp only: of_int_le_iff)
  qed
  then have "float_of_int \<lfloor>r\<rfloor> = of_int \<lfloor>r\<rfloor>" by (rule float_of_int_small)
  with True r show ?thesis by (simp add: float_of_num_def)
qed

lemma float_of_num_nonneg: "0 \<le> r \<Longrightarrow> 0 \<le> float_of_num r"
  unfolding float_of_num_def by (simp add: float_of_int_nonneg)

lemma float_of_num_bound: "\<bar>float_of_num r\<bar> \<le> 2 * \<bar>r\<bar>"
proof (cases "whole r")
  case False
  then show ?thesis by (simp add: float_of_num_def)
next
  case True
  then have r: "r = of_int \<lfloor>r\<rfloor>" by (rule whole_floor)
  have "\<bar>float_of_int \<lfloor>r\<rfloor>\<bar> \<le> 2 * \<bar>of_int \<lfloor>r\<rfloor>\<bar>" by (rule float_of_int_bound)
  with True r show ?thesis by (simp add: float_of_num_def)
qed

lemma round_at_2_53_1: "float_of_num 9007199254740993 = 9007199254740992"
proof -
  have w: "whole 9007199254740993" by (simp add: whole_def)
  have b: "bitlen 9007199254740993 = 54"
    using bitlen_twopow_add_eq[of 1 53] by simp
  show ?thesis
    using w b by (simp add: float_of_num_def float_of_int_def round_53_def Let_def)
qed

lemma float_of_num_zero: "float_of_num 0 = 0"
  by (rule float_of_num_exact) simp

text \<open>An int64 sum past the largest int64 wraps, and \<open>float\<close> of an odd integer next to
  \<open>2^53\<close> is rounded to the even neighbour.\<close>

lemma wrap64_example: "group_sum L Int64 [Num 9223372036854775807, Num 1] = Inr (Num (- 9223372036854775808))"
  by (simp add: group_sum_def int_cells_def wrap64_def)


lemma py_float_rounds:
  "py_float L (Num 9007199254740993) = Inr (Fin 9007199254740992)"
  by (simp add: round_at_2_53_1)


subsection \<open>Reconciliation\<close>

lemma state_to_value_mem: "state_to_value agg k = Some v \<Longrightarrow> (k, v) \<in> set agg"
  unfolding state_to_value_def by (drule map_of_SomeD) simp

lemma dom_state_to_value: "dom (state_to_value agg) = fst ` set agg"
  unfolding state_to_value_def by (simp add: dom_map_of_conv_image_fst)


lemma py_float_plain:
  assumes "plain_number v"
  shows "py_float L v = Inr (case v of Flt x \<Rightarrow> float_value x | Str s \<Rightarrow> Fin 0)"
proof (cases v)
  case (Str s)
  with assms show ?thesis by (simp add: plain_number_def)
next
  case (Flt x)
  show ?thesis
  proof (cases x)
    case (Fin r)
    with Flt assms have "\<bar>r\<bar> < 2 ^ 1023" by (simp add: plain_number_def)
    moreover have "\<bar>float_of_num r\<bar> \<le> 2 * \<bar>r\<bar>" by (rule float_of_num_bound)
    ultimately have "\<bar>float_of_num r\<bar> < 2 ^ 1024" by simp
    with Flt Fin show ?thesis by (simp add: float_value_def)
  next
    case (Inf s)
    with Flt show ?thesis by (simp add: float_value_def)
  next
    case NaN
    with Flt show ?thesis by (simp add: float_value_def)
  qed
qed

lemma annotate_metric_numbers:
  assumes "\<And>k v. m k = Some v \<Longrightarrow> plain_number v"
  shows "annotate_metric L m feats =
     Inr (map (\<lambda>f. f\<lparr>metric_value :=
                       Some (case m (state_norm f) of
                               Some (Flt x) \<Rightarrow> float_value x | _ \<Rightarrow> Fin 0)\<rparr>) feats)"
proof (induction feats)
  case Nil
  then show ?case by simp
next
  case (Cons f fs)
  show ?case
  proof (cases "m (state_norm f)")
    case None
    with Cons show ?thesis by (simp add: float_of_num_zero)
  next
    case (Some v)
    then have p: "plain_number v" by (rule assms)
    then obtain x where x: "v = Flt x" by (cases v) (simp_all add: plain_number_def)
    from py_float_plain[OF p, of L] x Some Cons show ?thesis by simp
  qed
qed

lemma unmatched_props:
  "sorted (unmatched agg feats) \<and> distinct (unmatched agg feats) \<and>
   set (unmatched agg feats) = dom (state_to_value agg) - state_norm ` set feats"
proof -
  have "finite (csv_norm_set agg - geo_norm_set feats)"
    by (simp add: csv_norm_set_def)
  then show ?thesis
    by (simp add: unmatched_def dom_state_to_value csv_norm_set_def geo_norm_set_def)
qed



lemma float_value_exact: "exact_number (Flt x) \<Longrightarrow> float_value x = x"
  by (cases x) (auto simp: exact_number_def float_value_def float_of_num_exact)

lemma exact_plain: "exact_number v \<Longrightarrow> plain_number v"
  by (cases v) (auto simp: exact_number_def plain_number_def split: pyfloat.splits)


text \<open>
  C1, as the code has it. The unmatched report is the sorted sequence, without
  repetition, of the canonical names of the aggregate that no boundary feature has.
  When the values of the aggregate are numbers, every feature gets a metric value:
  \<open>float\<close> of the value of the aggregate at its canonical name, and 0.0 when the
  aggregate has none. \<open>float\<close> leaves a number that is not whole, and a whole one up to
  \<open>2^53\<close>, as it is, so there the metric value is the value of the aggregate; a larger
  integer is rounded to the nearest double. When the values are finite and not negative,
  every metric value is a finite number that is not negative.
\<close>

theorem reconcile_numbers:
  "sorted (fst (reconcile L agg feats)) \<and> distinct (fst (reconcile L agg feats)) \<and>
   set (fst (reconcile L agg feats)) = dom (state_to_value agg) - state_norm ` set feats \<and>
   ((\<forall>v \<in> snd ` set agg. plain_number v) \<longrightarrow>
      snd (reconcile L agg feats) =
        Inr (map (\<lambda>f. f\<lparr>metric_value :=
                          Some (case state_to_value agg (state_norm f) of
                                  Some (Flt x) \<Rightarrow> float_value x | _ \<Rightarrow> Fin 0)\<rparr>) feats)) \<and>
   ((\<forall>v \<in> snd ` set agg. exact_number v) \<longrightarrow>
      snd (reconcile L agg feats) =
        Inr (map (\<lambda>f. f\<lparr>metric_value :=
                          Some (case state_to_value agg (state_norm f) of
                                  Some (Flt x) \<Rightarrow> x | _ \<Rightarrow> Fin 0)\<rparr>) feats)) \<and>
   ((\<forall>v \<in> snd ` set agg. \<exists>r. v = Num r \<and> 0 \<le> r \<and> r < 2 ^ 1023) \<longrightarrow>
      (\<exists>feats'. snd (reconcile L agg feats) = Inr feats' \<and>
         (\<forall>f \<in> set feats'. \<exists>r\<ge>0. metric_value f = Some (Fin r))))"
proof -
  let ?A = "state_to_value agg"
  have A: "snd (reconcile L agg feats) =
        Inr (map (\<lambda>f. f\<lparr>metric_value :=
                          Some (case ?A (state_norm f) of
                                  Some (Flt x) \<Rightarrow> float_value x | _ \<Rightarrow> Fin 0)\<rparr>) feats)"
    if h: "\<forall>v \<in> snd ` set agg. plain_number v"
  proof -
    have "plain_number v" if "?A k = Some v" for k v
      using state_to_value_mem[OF that] h by force
    then show ?thesis
      unfolding reconcile_def snd_conv by (rule annotate_metric_numbers)
  qed
  have E: "snd (reconcile L agg feats) =
        Inr (map (\<lambda>f. f\<lparr>metric_value :=
                          Some (case ?A (state_norm f) of
                                  Some (Flt x) \<Rightarrow> x | _ \<Rightarrow> Fin 0)\<rparr>) feats)"
    if h: "\<forall>v \<in> snd ` set agg. exact_number v"
  proof -
    from h have "\<forall>v \<in> snd ` set agg. plain_number v" using exact_plain by blast
    note eq = A[OF this]
    have "(case ?A k of Some (Flt x) \<Rightarrow> float_value x | _ \<Rightarrow> Fin 0)
        = (case ?A k of Some (Flt x) \<Rightarrow> x | _ \<Rightarrow> Fin 0)" for k
    proof (cases "?A k")
      case None
      then show ?thesis by simp
    next
      case (Some v)
      then have "v \<in> snd ` set agg" using state_to_value_mem by force
      with h have "exact_number v" by blast
      with Some show ?thesis by (cases v) (simp_all add: float_value_exact)
    qed
    then show ?thesis unfolding eq by simp
  qed
  have B: "\<exists>feats'. snd (reconcile L agg feats) = Inr feats' \<and>
         (\<forall>f \<in> set feats'. \<exists>r\<ge>0. metric_value f = Some (Fin r))"
    if nn: "\<forall>v \<in> snd ` set agg. \<exists>r. v = Num r \<and> 0 \<le> r \<and> r < 2 ^ 1023"
  proof -
    from nn have "\<forall>v \<in> snd ` set agg. plain_number v"
      by (auto simp: plain_number_def)
    note eq = A[OF this]
    have "\<exists>r\<ge>0. (case ?A k of Some (Flt x) \<Rightarrow> float_value x | _ \<Rightarrow> Fin 0) = Fin r" for k
    proof (cases "?A k")
      case None
      then show ?thesis by simp
    next
      case (Some v)
      then have "v \<in> snd ` set agg" using state_to_value_mem by force
      with nn obtain r where "v = Num r" "0 \<le> r" by blast
      with Some show ?thesis by (simp add: float_value_def float_of_num_nonneg)
    qed
    then show ?thesis unfolding eq by auto
  qed
  from A E B unmatched_props[of agg feats] show ?thesis
    by (simp add: reconcile_def)
qed

lemma example_features_eval: "example_features = [
  \<lparr>properties = [(py ''NAME_1'', JStr (py ''Orissa''))], state_raw = py ''Orissa'', state_norm = py ''orissa'', metric_value = None\<rparr>,
  \<lparr>properties = [(py ''NAME_1'', JStr (py ''Kerala''))], state_raw = py ''Kerala'', state_norm = py ''kerala'', metric_value = None\<rparr>,
  \<lparr>properties = [(py ''NAME_1'', JStr (py '' Goa''))], state_raw = py ''Goa'', state_norm = py ''goa'', metric_value = None\<rparr>]"
  by (simp add: example_features_def annotate_names_def apply_common_map_def COMMON_NAME_MAP_def text_defs ascii_only_def Let_def)

lemma example_unmatched: "unmatched example_agg example_features = [py ''assam'']"
  unfolding example_features_eval
  by (simp add: example_agg_def unmatched_def csv_norm_set_def geo_norm_set_def py_def insert_Diff_if)



theorem reconcile_numbers_witness: "reconcile ascii_only example_agg example_features = ([py ''assam''], Inr [
  \<lparr>properties = [(py ''NAME_1'', JStr (py ''Orissa''))], state_raw = py ''Orissa'', state_norm = py ''orissa'', metric_value = Some (Fin 100)\<rparr>,
  \<lparr>properties = [(py ''NAME_1'', JStr (py ''Kerala''))], state_raw = py ''Kerala'', state_norm = py ''kerala'', metric_value = Some (Fin 40)\<rparr>,
  \<lparr>properties = [(py ''NAME_1'', JStr (py '' Goa''))], state_raw = py ''Goa'', state_norm = py ''goa'', metric_value = Some (Fin 0)\<rparr>])"
proof -
  have h: "\<forall>v \<in> snd ` set example_agg. exact_number v"
    by (simp add: example_agg_def exact_number_def)
  have u: "fst (reconcile ascii_only example_agg example_features) = [py ''assam'']"
    by (simp add: reconcile_def example_unmatched)
  have "snd (reconcile ascii_only example_agg example_features) = Inr (map (\<lambda>f. f\<lparr>metric_value :=
                          Some (case state_to_value example_agg (state_norm f) of
                                  Some (Flt x) \<Rightarrow> x | _ \<Rightarrow> Fin 0)\<rparr>) example_features)"
    using reconcile_numbers[of ascii_only example_agg example_features] h by blast
  also have "\<dots> = Inr [
  \<lparr>properties = [(py ''NAME_1'', JStr (py ''Orissa''))], state_raw = py ''Orissa'', state_norm = py ''orissa'', metric_value = Some (Fin 100)\<rparr>,
  \<lparr>properties = [(py ''NAME_1'', JStr (py ''Kerala''))], state_raw = py ''Kerala'', state_norm = py ''kerala'', metric_value = Some (Fin 40)\<rparr>,
  \<lparr>properties = [(py ''NAME_1'', JStr (py '' Goa''))], state_raw = py ''Goa'', state_norm = py ''goa'', metric_value = Some (Fin 0)\<rparr>]"
    unfolding example_features_eval by (simp add: example_agg_def state_to_value_def py_def)
  finally show ?thesis using u by (simp add: prod_eq_iff)
qed


text \<open>An aggregate with a negative sum gives a feature a negative metric value.\<close>

theorem reconcile_negative_value: "reconcile ascii_only [(py ''goa'', Num (- 1))]
     (annotate_names ascii_only (py ''NAME_1'') [[(py ''NAME_1'', JStr (py ''Goa''))]])
   = ([], Inr [\<lparr>properties = [(py ''NAME_1'', JStr (py ''Goa''))], state_raw = py ''Goa'',
                state_norm = py ''goa'', metric_value = Some (Fin (- 1))\<rparr>])"
proof -
  have "float_of_num (- 1) = - 1" by (rule float_of_num_exact) simp
  then show ?thesis
    by (simp add: reconcile_def unmatched_def csv_norm_set_def geo_norm_set_def annotate_names_def
      apply_common_map_def COMMON_NAME_MAP_def text_defs ascii_only_def Let_def state_to_value_def)
qed


subsection \<open>Aggregation\<close>





















subsection \<open>The data preparation module\<close>

lemma ensure_store:
  "\<exists>fs. fst (ensure_percentage_column L h df y p) = h @ fs \<and> length fs = 1"
proof -
  have a: "(h @ [x])[length h := z] = h @ [z]" for x z :: frame
    by simp
  show ?thesis
    unfolding ensure_percentage_column_def Let_def
    by (auto split: option.splits sum.splits simp: a)
qed

lemma ensure_result:
  "snd (ensure_percentage_column L h df y p) = Inr out \<Longrightarrow> out = length h"
  unfolding ensure_percentage_column_def Let_def
  by (auto split: option.splits sum.splits if_splits)




text \<open>
  C9. \<open>ensure_percentage_column\<close> does not change the table it is given: after the call
  the table at the address \<open>df\<close> is the one that was there, as is every other table
  of the store; the only change to the store is one new table, and the address
  returned is the address of that new table, never \<open>df\<close>.
\<close>

theorem ensure_percentage_column_frame:
  assumes "df < length h"
  shows "fst (ensure_percentage_column L h df y p) ! df = h ! df \<and>
         take (length h) (fst (ensure_percentage_column L h df y p)) = h \<and>
         length (fst (ensure_percentage_column L h df y p)) = length h + 1 \<and>
         (\<forall>out. snd (ensure_percentage_column L h df y p) = Inr out \<longrightarrow> out = length h \<and> out \<noteq> df)"
proof -
  obtain fs where fs: "fst (ensure_percentage_column L h df y p) = h @ fs" "length fs = 1"
    using ensure_store by blast
  have "\<forall>out. snd (ensure_percentage_column L h df y p) = Inr out \<longrightarrow> out = length h \<and> out \<noteq> df"
    using ensure_result assms by blast
  with fs assms show ?thesis by (simp add: nth_append)
qed

theorem ensure_percentage_column_frame_witness:
  "0 < length [example_counts] \<and>
   ensure_percentage_column ascii_only [example_counts] 0 (py ''2022'') (py ''percentage'')
     = ([example_counts,
         example_counts @
           [\<lparr>col_name = py ''percentage'', col_dtype = Float64, col_cells = [Num 75, Num 25]\<rparr>]],
        Inr 1)"
proof -
  have f: "float_of_num 30 = 30" "float_of_num 10 = 10" "float_of_num 40 = 40"
    by (rule float_of_num_exact, simp)+
  have r: "rnd ascii_only (3 / 4) = Fin (3 / 4)" "rnd ascii_only (1 / 4) = Fin (1 / 4)"
          "rnd ascii_only 75 = Fin 75" "rnd ascii_only 25 = Fin 25"
    by (simp_all add: rnd_def whole_def ascii_only_def)
  show ?thesis
    using ensure_percentage_column_frame [of 0 "[example_counts]" ascii_only "py ''2022''" "py ''percentage''"]
    by (simp add: ensure_percentage_column_def Let_def example_counts_def frame_get_def py_def
      series_sum_def int_cells_def wrap64_def f r)
qed

lemma frame_get_name: "frame_get df k = Some c \<Longrightarrow> col_name c = k"
  unfolding frame_get_def by (drule find_Some_mem) simp

lemma frame_get_set_same: "frame_get (frame_set df c) (col_name c) = Some c"
  by (induction df) (auto simp: frame_get_def)

lemma frame_get_set_other: "k \<noteq> col_name c \<Longrightarrow> frame_get (frame_set df c) k = frame_get df k"
  by (induction df) (auto simp: frame_get_def)

lemma coerce_column_name: "coerce_column L t c = Some c' \<Longrightarrow> col_name c' = col_name c"
  by (auto simp: coerce_column_def)

lemma those_all: "those xs = Some ys \<Longrightarrow> \<forall>y \<in> set ys. Some y \<in> set xs"
proof (induction xs arbitrary: ys)
  case Nil
  then show ?case by simp
next
  case (Cons x xs)
  then show ?case by (cases x; cases "those xs") auto
qed

lemma coerce_column_cells:
  "coerce_column L t c = Some c' \<Longrightarrow>
   col_dtype c' = pandas_dtype t \<and> (\<forall>v' \<in> set (col_cells c'). \<exists>v. coerce_cell L t v = Some v')"
proof -
  assume a: "coerce_column L t c = Some c'"
  then obtain vs where vs: "those (map (coerce_cell L t) (col_cells c)) = Some vs"
    and c': "c' = c\<lparr>col_dtype := pandas_dtype t, col_cells := vs\<rparr>"
    by (auto simp: coerce_column_def)
  from those_all[OF vs] have "\<forall>v' \<in> set vs. \<exists>v. coerce_cell L t v = Some v'"
    by force
  with c' show ?thesis by simp
qed

lemma validate_columns_other:
  "validate_columns L co cols df = (fs, df') \<Longrightarrow> k \<notin> fst ` set cols \<Longrightarrow>
   frame_get df' k = frame_get df k"
proof (induction cols arbitrary: df fs df')
  case Nil
  then show ?case by simp
next
  case (Cons ksp rest)
  obtain k1 sp where ksp: "ksp = (k1, sp)" by (cases ksp)
  from Cons.prems(2) ksp have k: "k \<noteq> k1" "k \<notin> fst ` set rest" by auto
  show ?case
  proof (cases "frame_get df k1")
    case None
    with Cons.prems(1) ksp obtain fs1 where "validate_columns L co rest df = (fs1, df')"
      by (auto split: prod.splits)
    from Cons.IH[OF this k(2)] show ?thesis .
  next
    case (Some c)
    show ?thesis
    proof (cases "if co then coerce_column L (spec_dtype sp) c else Some c")
      case None
      with Some Cons.prems(1) ksp obtain fs1 where "validate_columns L co rest df = (fs1, df')"
        by (auto split: prod.splits)
      from Cons.IH[OF this k(2)] show ?thesis .
    next
      case S2: (Some c')
      with Some Cons.prems(1) ksp obtain fs1 where
        "validate_columns L co rest (frame_set df c') = (fs1, df')"
        by (auto split: prod.splits)
      from Cons.IH[OF this k(2)] have "frame_get df' k = frame_get (frame_set df c') k" .
      moreover have "col_name c' = k1"
        using S2 Some frame_get_name coerce_column_name by (fastforce split: if_splits)
      ultimately show ?thesis using k(1) by (simp add: frame_get_set_other)
    qed
  qed
qed

lemma validate_columns_ok:
  "validate_columns L True cols df = ([], df') \<Longrightarrow> distinct (map fst cols) \<Longrightarrow>
   (k, sp) \<in> set cols \<Longrightarrow>
   \<exists>c0 c. coerce_column L (spec_dtype sp) c0 = Some c \<and> frame_get df' k = Some c \<and>
          column_failures k sp c = []"
proof (induction cols arbitrary: df)
  case Nil
  then show ?case by simp
next
  case (Cons ksp rest)
  obtain k1 sp1 where ksp: "ksp = (k1, sp1)" by (cases ksp)
  from Cons.prems(1) ksp obtain c0 where c0: "frame_get df k1 = Some c0"
    by (cases "frame_get df k1") (auto split: prod.splits)
  from Cons.prems(1) ksp c0 obtain c1 where c1: "coerce_column L (spec_dtype sp1) c0 = Some c1"
    by (cases "coerce_column L (spec_dtype sp1) c0") (auto split: prod.splits)
  from Cons.prems(1) ksp c0 c1 have
    rest: "validate_columns L True rest (frame_set df c1) = ([], df')"
    and ok: "column_failures k1 sp1 c1 = []"
    by (auto split: prod.splits)
  have name: "col_name c1 = k1"
    using c0 c1 frame_get_name coerce_column_name by fastforce
  show ?case
  proof (cases "(k, sp) = (k1, sp1)")
    case True
    from Cons.prems(2) ksp have "k1 \<notin> fst ` set rest" by auto
    from validate_columns_other[OF rest this]
    have "frame_get df' k1 = Some c1"
      using name frame_get_set_same[of df c1] by simp
    with True c1 ok show ?thesis by blast
  next
    case False
    with Cons.prems(3) ksp have "(k, sp) \<in> set rest" by auto
    moreover from Cons.prems(2) have "distinct (map fst rest)" by simp
    ultimately show ?thesis using Cons.IH[OF rest] by blast
  qed
qed

lemma int_cast_nonneg:
  assumes "coerce_cell L SInt v = Some v'" "check_cell (Ge 0) v'"
  shows "\<exists>n\<ge>0. v' = Num (of_int n)"
proof (cases v)
  case (Flt x)
  with assms show ?thesis
    by (cases x) auto
next
  case (Str s)
  with assms show ?thesis by auto
qed

lemma str_cells:
  assumes "coerce_cell L SStr v = Some v'" "\<not> isna v'"
  shows "\<exists>s. v' = Str s"
proof (cases v)
  case (Flt x)
  with assms show ?thesis
    by (cases x) (auto simp: isna_def)
next
  case (Str s)
  with assms show ?thesis by auto
qed

lemma validate_SCHEMA:
  assumes "validate L SCHEMA raw = Inr df"
  shows "(\<exists>c. frame_get df (py ''2022'') = Some c \<and> col_dtype c = Int64 \<and>
            (\<forall>v \<in> set (col_cells c). \<exists>n\<ge>0. v = Num (of_int n))) \<and>
         (\<exists>c. frame_get df (py ''State/UT'') = Some c \<and>
            (\<forall>v \<in> set (col_cells c). \<exists>s. v = Str s))"
proof -
  from assms have vc: "validate_columns L True (schema_columns SCHEMA) raw = ([], df)"
    by (auto simp: validate_def SCHEMA_def split: prod.splits list.splits)
  have d: "distinct (map fst (schema_columns SCHEMA))"
    by (simp add: SCHEMA_def py_def)
  have m1: "(py ''2022'', \<lparr>spec_dtype = SInt, nullable = False, checks = [Ge 0]\<rparr>) \<in> set (schema_columns SCHEMA)"
    by (simp add: SCHEMA_def)
  have m2: "(py ''State/UT'', \<lparr>spec_dtype = SStr, nullable = False, checks = []\<rparr>) \<in> set (schema_columns SCHEMA)"
    by (simp add: SCHEMA_def)
  from validate_columns_ok[OF vc d m1] obtain c0 c where
    c: "coerce_column L SInt c0 = Some c" "frame_get df (py ''2022'') = Some c"
       "column_failures (py ''2022'') \<lparr>spec_dtype = SInt, nullable = False, checks = [Ge 0]\<rparr> c = []"
    by auto
  from c(3) have chk: "list_all (check_cell (Ge 0)) (col_cells c)"
    by (auto simp: column_failures_def split: if_splits)
  from coerce_column_cells[OF c(1)] chk
  have "col_dtype c = Int64 \<and> (\<forall>v \<in> set (col_cells c). \<exists>n\<ge>0. v = Num (of_int n))"
    using int_cast_nonneg by (auto simp: list_all_iff)
  with c(2) have A: "\<exists>c. frame_get df (py ''2022'') = Some c \<and> col_dtype c = Int64 \<and>
            (\<forall>v \<in> set (col_cells c). \<exists>n\<ge>0. v = Num (of_int n))" by blast
  from validate_columns_ok[OF vc d m2] obtain s0 s where
    s: "coerce_column L SStr s0 = Some s" "frame_get df (py ''State/UT'') = Some s"
       "column_failures (py ''State/UT'') \<lparr>spec_dtype = SStr, nullable = False, checks = []\<rparr> s = []"
    by auto
  from s(3) have nn: "\<not> list_ex isna (col_cells s)"
    by (auto simp: column_failures_def split: if_splits)
  from coerce_column_cells[OF s(1)] nn
  have "\<forall>v \<in> set (col_cells s). \<exists>t. v = Str t"
    using str_cells by (auto simp: list_ex_iff)
  with s(2) have B: "\<exists>c. frame_get df (py ''State/UT'') = Some c \<and>
            (\<forall>v \<in> set (col_cells c). \<exists>s. v = Str s)" by blast
  from A B show ?thesis by blast
qed


text \<open>
  C10. \<open>load_data\<close> returns a table only when the file was read and the table read
  passes the validation of the schema, and what it returns is the validated table: its
  column 2022 has the dtype int64 and holds only integers that are not negative, its
  column State/UT holds only text. When the validation fails, \<open>load_data\<close> raises the
  failures and returns no table.
\<close>

theorem load_data_validated:
  "(load_data L read_csv path = Inr df \<longrightarrow>
      (\<exists>raw. read_csv path = Inr raw \<and> validate L SCHEMA raw = Inr df) \<and>
      (\<exists>c. frame_get df (py ''2022'') = Some c \<and> col_dtype c = Int64 \<and>
            (\<forall>v \<in> set (col_cells c). \<exists>n\<ge>0. v = Num (of_int n))) \<and>
      (\<exists>c. frame_get df (py ''State/UT'') = Some c \<and>
            (\<forall>v \<in> set (col_cells c). \<exists>s. v = Str s))) \<and>
   (read_csv path = Inr raw' \<and> validate L SCHEMA raw' = Inl e \<longrightarrow>
      load_data L read_csv path = Inl e)"
proof -
  have A: "(\<exists>raw. read_csv path = Inr raw \<and> validate L SCHEMA raw = Inr df) \<and>
      (\<exists>c. frame_get df (py ''2022'') = Some c \<and> col_dtype c = Int64 \<and>
            (\<forall>v \<in> set (col_cells c). \<exists>n\<ge>0. v = Num (of_int n))) \<and>
      (\<exists>c. frame_get df (py ''State/UT'') = Some c \<and>
            (\<forall>v \<in> set (col_cells c). \<exists>s. v = Str s))"
    if ld: "load_data L read_csv path = Inr df"
  proof -
    from ld obtain raw where raw: "read_csv path = Inr raw" "validate L SCHEMA raw = Inr df"
      by (cases "read_csv path") (auto simp: load_data_def)
    from validate_SCHEMA[OF raw(2)] raw show ?thesis by blast
  qed
  have B: "load_data L read_csv path = Inl e"
    if "read_csv path = Inr raw' \<and> validate L SCHEMA raw' = Inl e"
    using that by (simp add: load_data_def)
  from A B show ?thesis by blast
qed

theorem load_data_validated_witness:
  "load_data ascii_only example_files ''valid.csv''
     = Inr [\<lparr>col_name = py ''Sl. No.'', col_dtype = Object, col_cells = [Num 1, Num 2]\<rparr>,
            \<lparr>col_name = py ''State/UT'', col_dtype = Object,
             col_cells = [Str (py ''Goa''), Str (py ''Kerala'')]\<rparr>,
            \<lparr>col_name = py ''2022'', col_dtype = Int64, col_cells = [Num 30, Num 10]\<rparr>,
            \<lparr>col_name = py ''percentage'', col_dtype = Float64, col_cells = [Missing, Missing]\<rparr>] \<and>
   load_data ascii_only example_files ''invalid.csv''
     = Inl (SchemaErrors [CheckFailed (py ''2022'')])"
proof -
  have v: "validate ascii_only SCHEMA example_valid
     = Inr [\<lparr>col_name = py ''Sl. No.'', col_dtype = Object, col_cells = [Num 1, Num 2]\<rparr>,
            \<lparr>col_name = py ''State/UT'', col_dtype = Object,
             col_cells = [Str (py ''Goa''), Str (py ''Kerala'')]\<rparr>,
            \<lparr>col_name = py ''2022'', col_dtype = Int64, col_cells = [Num 30, Num 10]\<rparr>,
            \<lparr>col_name = py ''percentage'', col_dtype = Float64, col_cells = [Missing, Missing]\<rparr>]"
    by (simp add: validate_def SCHEMA_def example_valid_def frame_get_def py_def
        coerce_column_def column_failures_def isna_def trunc_def)
  have i: "validate ascii_only SCHEMA example_invalid
     = Inl (SchemaErrors [CheckFailed (py ''2022'')])"
    by (simp add: validate_def SCHEMA_def example_invalid_def frame_get_def py_def
        coerce_column_def column_failures_def isna_def trunc_def)
  have f1: "example_files ''valid.csv'' = Inr example_valid"
    by (simp add: example_files_def)
  have f2: "example_files ''invalid.csv'' = Inr example_invalid"
    by (simp add: example_files_def)
  have 1: "load_data ascii_only example_files ''valid.csv'' = validate ascii_only SCHEMA example_valid"
    by (simp add: load_data_def f1)
  have 2: "load_data ascii_only example_files ''invalid.csv''
     = Inl (SchemaErrors [CheckFailed (py ''2022'')])"
    using load_data_validated [of ascii_only example_files "''invalid.csv''" _ example_invalid
        "SchemaErrors [CheckFailed (py ''2022'')]"] f2 i
    by blast
  from 1 2 v show ?thesis by simp
qed

end
